theory Spec2Isabelle
  imports Main
begin

section \<open>Python values and exceptions\<close>

text \<open>
  The values that flow through the package: what \<^verbatim>\<open>json.loads\<close> returns and what a
  tool call carries. A Python \<^verbatim>\<open>dict\<close> keeps insertion order, so it is an association
  list; its keys are strings, as in every dictionary decoded from JSON. Characters are
  the 256 code points of \<^typ>\<open>char\<close>. Floating-point numbers are not part of the model.
\<close>

datatype pyval =
    PNone
  | PBool bool
  | PInt int
  | PStr string
  | PList "pyval list"
  | PDict "(string \<times> pyval) list"

text \<open>
  Exception classes. \<^verbatim>\<open>except Exception\<close> catches every class but those derived from
  \<^verbatim>\<open>BaseException\<close> alone (\<^verbatim>\<open>SystemExit\<close>, \<^verbatim>\<open>KeyboardInterrupt\<close>, and such classes
  of the user's). \<^verbatim>\<open>json.JSONDecodeError\<close> is a subclass of \<^verbatim>\<open>ValueError\<close>.
\<close>

datatype exc_class =
    TypeError
  | ValueError
  | RuntimeError
  | FileNotFoundError
  | AttributeError
  | ImportError
  | JSONDecodeError
  | OSError
  | SystemExit
  | KeyboardInterrupt
  | UserException string
  | UserBaseException string

fun class_name :: "exc_class \<Rightarrow> string" where
  "class_name TypeError = ''TypeError''"
| "class_name ValueError = ''ValueError''"
| "class_name RuntimeError = ''RuntimeError''"
| "class_name FileNotFoundError = ''FileNotFoundError''"
| "class_name AttributeError = ''AttributeError''"
| "class_name ImportError = ''ImportError''"
| "class_name JSONDecodeError = ''JSONDecodeError''"
| "class_name OSError = ''OSError''"
| "class_name SystemExit = ''SystemExit''"
| "class_name KeyboardInterrupt = ''KeyboardInterrupt''"
| "class_name (UserException n) = n"
| "class_name (UserBaseException n) = n"

fun is_Exception :: "exc_class \<Rightarrow> bool" where
  "is_Exception SystemExit = False"
| "is_Exception KeyboardInterrupt = False"
| "is_Exception (UserBaseException n) = False"
| "is_Exception c = True"

text \<open>An exception instance: its class and \<^verbatim>\<open>str(ex)\<close>.\<close>

datatype exn = Exn (exn_class: exc_class) (exn_msg: string)

definition caught :: "exn \<Rightarrow> bool" where
  "caught ex = is_Exception (exn_class ex)"

subsection \<open>\<^verbatim>\<open>_utils.return_or_raise\<close>\<close>

definition return_or_raise :: "bool \<Rightarrow> exn \<Rightarrow> 'a \<Rightarrow> exn + 'a" where
  "return_or_raise no_throw ex return_value = (if no_throw then Inr return_value else Inl ex)"

section \<open>A model of \<^verbatim>\<open>json.loads\<close> and \<^verbatim>\<open>json.dumps\<close>\<close>

abbreviation dq :: char where "dq \<equiv> CHR 0x22"
abbreviation bsl :: char where "bsl \<equiv> CHR 0x5C"

definition is_ws :: "char \<Rightarrow> bool" where
  "is_ws c = (c = CHR 0x20 \<or> c = CHR 0x09 \<or> c = CHR 0x0A \<or> c = CHR 0x0D)"

definition skip_ws :: "string \<Rightarrow> string" where
  "skip_ws s = dropWhile is_ws s"

definition is_digit :: "char \<Rightarrow> bool" where
  "is_digit c = (48 \<le> (of_char c :: nat) \<and> (of_char c :: nat) < 58)"

definition digit_of :: "char \<Rightarrow> nat" where
  "digit_of c = of_char c - 48"

definition digit_char :: "nat \<Rightarrow> char" where
  "digit_char d = char_of (48 + d)"

definition nat_of_digits :: "string \<Rightarrow> nat" where
  "nat_of_digits ds = foldl (\<lambda>a c. 10 * a + digit_of c) 0 ds"

text \<open>
  The number pattern of the decoder is
  \<^verbatim>\<open>(-?(?:0|[1-9][0-9]*))(\.[0-9]+)?([eE][-+]?[0-9]+)?\<close>; a match with a fraction or an
  exponent is a float, which this model does not decode.
\<close>

fun float_tail :: "string \<Rightarrow> bool" where
  "float_tail (c # d # e # r) =
     ((c = CHR ''.'' \<and> is_digit d) \<or>
      ((c = CHR ''e'' \<or> c = CHR ''E'') \<and>
         (is_digit d \<or> ((d = CHR ''+'' \<or> d = CHR ''-'') \<and> is_digit e))))"
| "float_tail [c, d] = ((c = CHR ''.'' \<or> c = CHR ''e'' \<or> c = CHR ''E'') \<and> is_digit d)"
| "float_tail r = False"

definition scan_digits :: "string \<Rightarrow> (nat \<times> string) option" where
  "scan_digits s =
     (case s of
        [] \<Rightarrow> None
      | c # r \<Rightarrow>
          if \<not> is_digit c then None
          else if c = CHR ''0'' then Some (0, r)
          else Some (nat_of_digits (c # takeWhile is_digit r), dropWhile is_digit r))"

definition scan_number :: "string \<Rightarrow> (pyval \<times> string) option" where
  "scan_number s =
     (case s of
        [] \<Rightarrow> None
      | c # r \<Rightarrow>
          (case scan_digits (if c = CHR ''-'' then r else s) of
             None \<Rightarrow> None
           | Some (n, rest) \<Rightarrow>
               if float_tail rest then None
               else Some (PInt (if c = CHR ''-'' then - int n else int n), rest)))"

definition hex_val :: "char \<Rightarrow> nat option" where
  "hex_val c =
     (let k = (of_char c :: nat) in
      if 48 \<le> k \<and> k < 58 then Some (k - 48)
      else if 97 \<le> k \<and> k < 103 then Some (k - 87)
      else if 65 \<le> k \<and> k < 71 then Some (k - 55)
      else None)"

definition decode_u4 :: "char \<Rightarrow> char \<Rightarrow> char \<Rightarrow> char \<Rightarrow> char option" where
  "decode_u4 a b c d =
     (case (hex_val a, hex_val b, hex_val c, hex_val d) of
        (Some x, Some y, Some z, Some w) \<Rightarrow>
          (if x = 0 \<and> y = 0 then Some (char_of (16 * z + w)) else None)
      | _ \<Rightarrow> None)"

definition unescape :: "char \<Rightarrow> char option" where
  "unescape e =
     (if e = dq then Some dq
      else if e = bsl then Some bsl
      else if e = CHR ''/'' then Some (CHR ''/'')
      else if e = CHR ''b'' then Some (CHR 0x08)
      else if e = CHR ''f'' then Some (CHR 0x0C)
      else if e = CHR ''n'' then Some (CHR 0x0A)
      else if e = CHR ''r'' then Some (CHR 0x0D)
      else if e = CHR ''t'' then Some (CHR 0x09)
      else None)"

definition push_char :: "char \<Rightarrow> (string \<times> string) option \<Rightarrow> (string \<times> string) option" where
  "push_char c r = (case r of None \<Rightarrow> None | Some (s, rest) \<Rightarrow> Some (c # s, rest))"

text \<open>
  The string scanner, started after the opening quote (strict mode: a raw control
  character ends the scan with an error). A \<^verbatim>\<open>\uXXXX\<close> escape above code point 255 is
  outside the characters of the model.
\<close>

fun scan_string :: "string \<Rightarrow> (string \<times> string) option" where
  "scan_string [] = None"
| "scan_string (c # cs) =
     (if c = dq then Some ([], cs)
      else if c = bsl then
        (case cs of
           [] \<Rightarrow> None
         | e # r \<Rightarrow>
             if e = CHR ''u'' then
               (case r of
                  h1 # h2 # h3 # h4 # r' \<Rightarrow>
                    (case decode_u4 h1 h2 h3 h4 of
                       None \<Rightarrow> None
                     | Some ch \<Rightarrow> push_char ch (scan_string r'))
                | _ \<Rightarrow> None)
             else
               (case unescape e of
                  None \<Rightarrow> None
                | Some ch \<Rightarrow> push_char ch (scan_string r)))
      else if (of_char c :: nat) < 32 then None
      else push_char c (scan_string cs))"

text \<open>\<^verbatim>\<open>dict(pairs)\<close>: a repeated key keeps its first position and takes the last value.\<close>

fun dict_set :: "(string \<times> 'v) list \<Rightarrow> string \<Rightarrow> 'v \<Rightarrow> (string \<times> 'v) list" where
  "dict_set [] k v = [(k, v)]"
| "dict_set ((k', v') # d) k v = (if k' = k then (k, v) # d else (k', v') # dict_set d k v)"

definition dict_of_pairs :: "(string \<times> 'v) list \<Rightarrow> (string \<times> 'v) list" where
  "dict_of_pairs ps = foldl (\<lambda>d (k, v). dict_set d k v) [] ps"

text \<open>
  The scanner (\<^verbatim>\<open>scan_once\<close>, \<^verbatim>\<open>JSONArray\<close>, \<^verbatim>\<open>JSONObject\<close>) by recursion on a bound
  of the nesting and of the number of items; \<open>parse_elems\<close> runs after \<^verbatim>\<open>[\<close> and the
  white space behind it, \<open>parse_members\<close> at the opening quote of a key.
\<close>

fun parse_value :: "nat \<Rightarrow> string \<Rightarrow> (pyval \<times> string) option"
  and parse_elems :: "nat \<Rightarrow> string \<Rightarrow> (pyval list \<times> string) option"
  and parse_members :: "nat \<Rightarrow> string \<Rightarrow> ((string \<times> pyval) list \<times> string) option"
where
  "parse_value 0 s = None"
| "parse_value (Suc n) s =
     (case s of
        [] \<Rightarrow> None
      | c # cs \<Rightarrow>
          if c = dq then
            (case scan_string cs of None \<Rightarrow> None | Some (str, r) \<Rightarrow> Some (PStr str, r))
          else if c = CHR ''{'' then
            (case skip_ws cs of
               [] \<Rightarrow> None
             | d # r \<Rightarrow>
                 if d = CHR ''}'' then Some (PDict [], r)
                 else if d = dq then
                   (case parse_members n (d # r) of
                      None \<Rightarrow> None
                    | Some (ps, r') \<Rightarrow> Some (PDict (dict_of_pairs ps), r'))
                 else None)
          else if c = CHR ''['' then
            (case skip_ws cs of
               [] \<Rightarrow> None
             | d # r \<Rightarrow>
                 if d = CHR '']'' then Some (PList [], r)
                 else
                   (case parse_elems n (d # r) of
                      None \<Rightarrow> None
                    | Some (vs, r') \<Rightarrow> Some (PList vs, r')))
          else if take 4 s = ''null'' then Some (PNone, drop 4 s)
          else if take 4 s = ''true'' then Some (PBool True, drop 4 s)
          else if take 5 s = ''false'' then Some (PBool False, drop 5 s)
          else scan_number s)"
| "parse_elems 0 s = None"
| "parse_elems (Suc n) s =
     (case parse_value n s of
        None \<Rightarrow> None
      | Some (v, r) \<Rightarrow>
          (case skip_ws r of
             [] \<Rightarrow> None
           | d # r' \<Rightarrow>
               if d = CHR '']'' then Some ([v], r')
               else if d = CHR '','' then
                 (case parse_elems n (skip_ws r') of
                    None \<Rightarrow> None
                  | Some (vs, r'') \<Rightarrow> Some (v # vs, r''))
               else None))"
| "parse_members 0 s = None"
| "parse_members (Suc n) s =
     (case s of
        [] \<Rightarrow> None
      | q # s1 \<Rightarrow>
          if q \<noteq> dq then None
          else
            (case scan_string s1 of
               None \<Rightarrow> None
             | Some (k, r) \<Rightarrow>
                 (case skip_ws r of
                    [] \<Rightarrow> None
                  | c # r1 \<Rightarrow>
                      if c \<noteq> CHR '':'' then None
                      else
                        (case parse_value n (skip_ws r1) of
                           None \<Rightarrow> None
                         | Some (v, r2) \<Rightarrow>
                             (case skip_ws r2 of
                                [] \<Rightarrow> None
                              | d # r3 \<Rightarrow>
                                  if d = CHR ''}'' then Some ([(k, v)], r3)
                                  else if d = CHR '','' then
                                    (case parse_members n (skip_ws r3) of
                                       None \<Rightarrow> None
                                     | Some (ps, r4) \<Rightarrow> Some ((k, v) # ps, r4))
                                  else None)))))"

text \<open>
  \<^verbatim>\<open>json.loads\<close>: white space, one value, white space, end of text; anything else is
  a \<^verbatim>\<open>JSONDecodeError\<close> (its position-specific wording is not modelled).
\<close>

definition decode_error :: exn where
  "decode_error = Exn JSONDecodeError ''invalid JSON text''"

definition json_loads :: "string \<Rightarrow> exn + pyval" where
  "json_loads s =
     (case parse_value (2 * length s + 2) (skip_ws s) of
        None \<Rightarrow> Inl decode_error
      | Some (v, r) \<Rightarrow> if skip_ws r = [] then Inr v else Inl decode_error)"

subsection \<open>Encoding\<close>

definition hex_digit :: "nat \<Rightarrow> char" where
  "hex_digit d = (if d < 10 then char_of (48 + d) else char_of (87 + d))"

text \<open>
  \<^verbatim>\<open>encode_basestring\<close> (\<^verbatim>\<open>ensure_ascii=False\<close>): the backslash, the quote and the
  control characters are escaped, everything else is written as it is.
\<close>

definition escape_char :: "char \<Rightarrow> string" where
  "escape_char c =
     (if c = bsl then [bsl, bsl]
      else if c = dq then [bsl, dq]
      else if c = CHR 0x08 then [bsl, CHR ''b'']
      else if c = CHR 0x0C then [bsl, CHR ''f'']
      else if c = CHR 0x0A then [bsl, CHR ''n'']
      else if c = CHR 0x0D then [bsl, CHR ''r'']
      else if c = CHR 0x09 then [bsl, CHR ''t'']
      else if (of_char c :: nat) < 32 then
        [bsl, CHR ''u'', CHR ''0'', CHR ''0'',
         hex_digit ((of_char c :: nat) div 16), hex_digit ((of_char c :: nat) mod 16)]
      else [c])"

definition encode_str :: "string \<Rightarrow> string" where
  "encode_str s = dq # concat (map escape_char s) @ [dq]"

function show_nat :: "nat \<Rightarrow> string" where
  "show_nat n = (if n < 10 then [digit_char n] else show_nat (n div 10) @ [digit_char (n mod 10)])"
  by pat_completeness auto
termination
  by (relation "measure (\<lambda>n. n)") auto

definition show_int :: "int \<Rightarrow> string" where
  "show_int i = (if i < 0 then CHR ''-'' # show_nat (nat (- i)) else show_nat (nat i))"

text \<open>
  \<^verbatim>\<open>json.dumps(value, ensure_ascii=False, separators=(",", ":"))\<close>: one line, no
  white space.
\<close>

fun dumps_compact :: "pyval \<Rightarrow> string"
  and compact_items :: "pyval list \<Rightarrow> string"
  and compact_members :: "(string \<times> pyval) list \<Rightarrow> string"
where
  "dumps_compact PNone = ''null''"
| "dumps_compact (PBool b) = (if b then ''true'' else ''false'')"
| "dumps_compact (PInt i) = show_int i"
| "dumps_compact (PStr s) = encode_str s"
| "dumps_compact (PList vs) = ''['' @ compact_items vs @ '']''"
| "dumps_compact (PDict kvs) = ''{'' @ compact_members kvs @ ''}''"
| "compact_items [] = []"
| "compact_items [v] = dumps_compact v"
| "compact_items (v # w # vs) = dumps_compact v @ '','' @ compact_items (w # vs)"
| "compact_members [] = []"
| "compact_members [(k, v)] = encode_str k @ '':'' @ dumps_compact v"
| "compact_members ((k, v) # kv # kvs) =
     encode_str k @ '':'' @ dumps_compact v @ '','' @ compact_members (kv # kvs)"

text \<open>
  \<^verbatim>\<open>json.dumps(obj, indent=1, ensure_ascii=False, separators=(",", ": "))\<close>: every item
  of a non-empty list or dictionary on a line of its own, indented by one space per
  nesting level; \<open>lvl\<close> is the level of the enclosing container.
\<close>

definition newline_indent :: "nat \<Rightarrow> string" where
  "newline_indent lvl = CHR 0x0A # replicate lvl (CHR 0x20)"

fun dumps_indent :: "nat \<Rightarrow> pyval \<Rightarrow> string"
  and indent_items :: "nat \<Rightarrow> pyval list \<Rightarrow> string"
  and indent_members :: "nat \<Rightarrow> (string \<times> pyval) list \<Rightarrow> string"
where
  "dumps_indent lvl PNone = ''null''"
| "dumps_indent lvl (PBool b) = (if b then ''true'' else ''false'')"
| "dumps_indent lvl (PInt i) = show_int i"
| "dumps_indent lvl (PStr s) = encode_str s"
| "dumps_indent lvl (PList vs) =
     (if vs = [] then ''[]''
      else ''['' @ newline_indent (Suc lvl) @ indent_items (Suc lvl) vs @ newline_indent lvl @ '']'')"
| "dumps_indent lvl (PDict kvs) =
     (if kvs = [] then ''{}''
      else ''{'' @ newline_indent (Suc lvl) @ indent_members (Suc lvl) kvs @ newline_indent lvl @ ''}'')"
| "indent_items lvl [] = []"
| "indent_items lvl [v] = dumps_indent lvl v"
| "indent_items lvl (v # w # vs) =
     dumps_indent lvl v @ '','' @ newline_indent lvl @ indent_items lvl (w # vs)"
| "indent_members lvl [] = []"
| "indent_members lvl [(k, v)] = encode_str k @ '': '' @ dumps_indent lvl v"
| "indent_members lvl ((k, v) # kv # kvs) =
     encode_str k @ '': '' @ dumps_indent lvl v @ '','' @ newline_indent lvl
       @ indent_members lvl (kv # kvs)"

section \<open>Verbosity settings and the diagnostics channel\<close>

datatype VerboseLevel = NONE | LOW | MID | HIGH

fun level_value :: "VerboseLevel \<Rightarrow> nat" where
  "level_value NONE = 0"
| "level_value LOW = 1"
| "level_value MID = 2"
| "level_value HIGH = 3"

definition includes_level :: "VerboseLevel \<Rightarrow> VerboseLevel \<Rightarrow> bool" where
  "includes_level self message_level = (level_value message_level \<le> level_value self)"

text \<open>
  \<^verbatim>\<open>VerboseSettings\<close>: the level and the propagation policy (\<open>no_throw = True\<close> is
  fail-open). Its \<^verbatim>\<open>validate\<close> attribute is always \<^verbatim>\<open>False\<close>; the output stream and the
  lock are the sink below.
\<close>

record VerboseSettings =
  verbose_level :: VerboseLevel
  no_throw :: bool

text \<open>
  Diagnostic messages, kept structured (the formatted wording is not modelled). A path
  is the list of names below the resolved base directory.
\<close>

type_synonym path = "string list"

datatype diag =
    Message string
  | Traversing path nat
  | CannotList path exn
  | SkippingSymlink path
  | MaxDepthReached path
  | RejectedNoMiddle string
  | CannotStat path exn
  | SkippingTooBig string nat
  | ImportFailed string exn
  | SkippingFile string exn
  | Overwriting string
  | LoadedTool string string
  | LoadedTools
  | ScanFinished

text \<open>
  The sink records every message handed to \<^verbatim>\<open>print_verbose\<close> with its required level
  (\<open>issued\<close>) and the messages it really prints (\<open>written\<close>).
\<close>

record sink =
  issued :: "(VerboseLevel \<times> diag) list"
  written :: "diag list"

definition print_verbose :: "VerboseLevel \<Rightarrow> diag \<Rightarrow> VerboseSettings \<Rightarrow> sink \<Rightarrow> sink" where
  "print_verbose required_verbose_level message vs snk =
     (let snk1 = snk\<lparr>issued := issued snk @ [(required_verbose_level, message)]\<rparr> in
      if verbose_level vs = NONE then snk1
      else if includes_level (verbose_level vs) required_verbose_level
        then snk1\<lparr>written := written snk1 @ [message]\<rparr>
      else snk1)"

section \<open>\<^verbatim>\<open>_json_utils\<close>\<close>

subsection \<open>\<^verbatim>\<open>is_valid_json\<close>\<close>

text \<open>
  The result is the tuple \<^verbatim>\<open>(is_valid, parsed_value, error_message)\<close>, or the exception
  that \<^verbatim>\<open>json.loads\<close> raised when \<open>no_throw\<close> is off.
\<close>

definition is_valid_json :: "string \<Rightarrow> bool \<Rightarrow> exn + (bool \<times> pyval option \<times> string option)" where
  "is_valid_json json_str no_throw' =
     (case json_loads json_str of
        Inr v \<Rightarrow> Inr (True, Some v, None)
      | Inl ex \<Rightarrow>
          if no_throw'
          then Inr (False, None,
                 Some (''Exception ('' @ class_name (exn_class ex) @ ''): '' @ exn_msg ex))
          else Inl ex)"

subsection \<open>\<^verbatim>\<open>prettify_json\<close>\<close>

text \<open>Python's \<^verbatim>\<open>old in s\<close> on strings: \<open>old\<close> occurs in \<open>s\<close> as a contiguous piece.\<close>

fun py_in :: "string \<Rightarrow> string \<Rightarrow> bool" where
  "py_in old [] = (old = [])"
| "py_in old (c # cs) = (take (length old) (c # cs) = old \<or> py_in old cs)"

text \<open>\<^verbatim>\<open>s.replace(old, new)\<close>: every occurrence, left to right, without overlap.\<close>

function str_replace :: "string \<Rightarrow> string \<Rightarrow> string \<Rightarrow> string" where
  "str_replace old new [] = (if old = [] then new else [])"
| "str_replace old new (c # cs) =
     (if old = [] then new @ c # str_replace old new cs
      else if take (length old) (c # cs) = old
        then new @ str_replace old new (drop (length old) (c # cs))
      else c # str_replace old new cs)"
  by pat_completeness auto
termination
  by (relation "measure (\<lambda>(old, new, s). length s)") auto

text \<open>
  \<^verbatim>\<open>uuid.uuid4().hex\<close> is the 128-bit draw written as 32 lower-case hexadecimal digits.
  The draws of the random source are a parameter: a list, in the order they are taken.
\<close>

fun hex_digits :: "nat \<Rightarrow> nat \<Rightarrow> string" where
  "hex_digits 0 u = []"
| "hex_digits (Suc k) u = hex_digits k (u div 16) @ [hex_digit (u mod 16)]"

definition uuid_hex :: "nat \<Rightarrow> string" where
  "uuid_hex u = hex_digits 32 u"

definition placeholder_token :: "nat \<Rightarrow> string" where
  "placeholder_token u = ''__JSON_LIST_PLACEHOLDER_'' @ uuid_hex u @ ''__''"

text \<open>
  \<^verbatim>\<open>generate_unique_token\<close>: draw until the token is neither in the input text nor a key
  of \<open>placeholders\<close>. When the draws are used up the loop has not returned: \<open>None\<close>.
\<close>

fun generate_unique_token ::
  "string \<Rightarrow> (string \<times> string) list \<Rightarrow> nat list \<Rightarrow> (string \<times> nat list) option" where
  "generate_unique_token json_text placeholders [] = None"
| "generate_unique_token json_text placeholders (u # us) =
     (if \<not> py_in (placeholder_token u) json_text \<and> map_of placeholders (placeholder_token u) = None
      then Some (placeholder_token u, us)
      else generate_unique_token json_text placeholders us)"

definition list_to_single_line_json :: "pyval list \<Rightarrow> string" where
  "list_to_single_line_json val = dumps_compact (PList val)"

text \<open>
  \<^verbatim>\<open>replace_lists_with_placeholders\<close>, with the dictionary \<open>placeholders\<close> and the
  remaining draws passed along.
\<close>

fun replace_lists_with_placeholders ::
    "string \<Rightarrow> pyval \<Rightarrow> (string \<times> string) list \<times> nat list
      \<Rightarrow> (pyval \<times> (string \<times> string) list \<times> nat list) option"
  and replace_in_members ::
    "string \<Rightarrow> (string \<times> pyval) list \<Rightarrow> (string \<times> string) list \<times> nat list
      \<Rightarrow> ((string \<times> pyval) list \<times> (string \<times> string) list \<times> nat list) option"
where
  "replace_lists_with_placeholders json_text (PList vs) st =
     (case generate_unique_token json_text (fst st) (snd st) of
        None \<Rightarrow> None
      | Some (token, us) \<Rightarrow>
          Some (PStr token, dict_set (fst st) token (list_to_single_line_json vs), us))"
| "replace_lists_with_placeholders json_text (PDict kvs) st =
     (case replace_in_members json_text kvs st of
        None \<Rightarrow> None
      | Some (kvs', st') \<Rightarrow> Some (PDict kvs', st'))"
| "replace_lists_with_placeholders json_text PNone st = Some (PNone, st)"
| "replace_lists_with_placeholders json_text (PBool b) st = Some (PBool b, st)"
| "replace_lists_with_placeholders json_text (PInt i) st = Some (PInt i, st)"
| "replace_lists_with_placeholders json_text (PStr s) st = Some (PStr s, st)"
| "replace_in_members json_text [] st = Some ([], st)"
| "replace_in_members json_text ((k, v) # kvs) st =
     (case replace_lists_with_placeholders json_text v st of
        None \<Rightarrow> None
      | Some (v', st1) \<Rightarrow>
          (case replace_in_members json_text kvs st1 of
             None \<Rightarrow> None
           | Some (kvs', st2) \<Rightarrow> Some ((k, v') # kvs', st2)))"

definition splice_placeholders :: "(string \<times> string) list \<Rightarrow> string \<Rightarrow> string" where
  "splice_placeholders placeholders pretty_text =
     foldl (\<lambda>txt (token, one_line_list_json).
              str_replace (dq # token @ [dq]) one_line_list_json txt)
       pretty_text placeholders"

text \<open>
  \<^verbatim>\<open>prettify_json\<close> returns the string or raises; the sink and the remaining draws come
  back with the result. \<open>None\<close>: the token loop has not returned.
\<close>

definition prettify_json ::
  "string \<Rightarrow> VerboseSettings \<Rightarrow> sink \<Rightarrow> nat list \<Rightarrow> ((exn + string) \<times> sink \<times> nat list) option" where
  "prettify_json json_text vs snk us =
     (case is_valid_json json_text (no_throw vs) of
        Inl ex \<Rightarrow> Some (Inl ex, snk, us)
      | Inr (result, valid_json, error_message) \<Rightarrow>
          (case valid_json of
             None \<Rightarrow>
               Some (return_or_raise (no_throw vs)
                       (Exn RuntimeError ''`json_text` is not a valid json'') json_text,
                     (case error_message of
                        None \<Rightarrow> snk
                      | Some m \<Rightarrow> print_verbose LOW (Message m) vs snk),
                     us)
           | Some v \<Rightarrow>
               (case replace_lists_with_placeholders json_text v ([], us) of
                  None \<Rightarrow> None
                | Some (transformed_obj, placeholders, us') \<Rightarrow>
                    Some (Inr (splice_placeholders placeholders (dumps_indent 0 transformed_obj)),
                          snk, us'))))"

section \<open>The registry and \<^verbatim>\<open>LlmTools.run_tool\<close>\<close>

text \<open>
  An object bound in a tool module or stored in the registry is a callable (its behaviour
  on keyword arguments: the value it returns or the exception it raises) or a plain
  value. A registry entry is the dictionary with the keys \<^verbatim>\<open>"description"\<close> and
  \<^verbatim>\<open>"runner"\<close>.
\<close>

datatype pyobj =
    Callable "(string \<times> pyval) list \<Rightarrow> exn + pyval"
  | Val pyval

record entry =
  description :: pyobj
  runner :: pyobj

type_synonym registry = "string \<rightharpoonup> entry"

definition py_get :: "(string \<times> pyval) list \<Rightarrow> string \<Rightarrow> pyval" where
  "py_get d k = (case map_of d k of None \<Rightarrow> PNone | Some v \<Rightarrow> v)"

text \<open>\<^verbatim>\<open>str.isspace\<close> on the code points below 256; \<^verbatim>\<open>s.strip()\<close> is true when a character is left.\<close>

definition py_isspace :: "char \<Rightarrow> bool" where
  "py_isspace c = ((of_char c :: nat) \<in> {9, 10, 11, 12, 13, 28, 29, 30, 31, 32, 133, 160})"

definition strip_nonempty :: "string \<Rightarrow> bool" where
  "strip_nonempty s = list_ex (\<lambda>c. \<not> py_isspace c) s"

text \<open>The primary path of \<^verbatim>\<open>run_tool\<close>: decode a string payload, unwrap a one-item list.\<close>

definition decode_payload :: "pyval \<Rightarrow> pyval" where
  "decode_payload tool_call =
     (case tool_call of
        PStr s \<Rightarrow> (case json_loads s of Inl ex \<Rightarrow> PNone | Inr v \<Rightarrow> v)
      | _ \<Rightarrow> tool_call)"

definition unwrap_payload :: "pyval \<Rightarrow> pyval" where
  "unwrap_payload payload =
     (case payload of
        PList vs \<Rightarrow> (case vs of [PDict d] \<Rightarrow> PDict d | _ \<Rightarrow> PNone)
      | _ \<Rightarrow> payload)"

definition parse_tool_call :: "pyval \<Rightarrow> (string \<times> (string \<times> pyval) list) option" where
  "parse_tool_call tool_call =
     (case unwrap_payload (decode_payload tool_call) of
        PDict payload \<Rightarrow>
          (let candidate_name =
                 (if py_get payload ''name'' = PNone then py_get payload ''function_name''
                  else py_get payload ''name'');
               args0 =
                 (if py_get payload ''parameters'' = PNone then py_get payload ''arguments''
                  else py_get payload ''parameters'');
               args1 = (if args0 = PNone then PDict [] else args0);
               candidate_args =
                 (case args1 of
                    PStr s \<Rightarrow> (case json_loads s of Inl ex \<Rightarrow> PNone | Inr v \<Rightarrow> v)
                  | _ \<Rightarrow> args1)
           in case candidate_name of
                PStr n \<Rightarrow>
                  (case candidate_args of
                     PDict a \<Rightarrow> if strip_nonempty n then Some (n, a) else None
                   | _ \<Rightarrow> None)
              | _ \<Rightarrow> None)
      | _ \<Rightarrow> None)"

fun is_str_or_dict :: "pyval \<Rightarrow> bool" where
  "is_str_or_dict (PStr s) = True"
| "is_str_or_dict (PDict d) = True"
| "is_str_or_dict v = False"

definition unknown_format :: exn where
  "unknown_format =
     Exn ValueError
       ''Unknown tool-call format or missing `tool_call`; fallback `tool_name` must be provided''"

text \<open>
  Resolution (primary path, then the explicit fallback). \<open>Inl r\<close>: \<^verbatim>\<open>run_tool\<close> ends here
  with \<open>r\<close> (the exception raised, or the value returned); \<open>Inr (name, args)\<close>: the
  resolved call.
\<close>

definition resolve_call ::
  "bool \<Rightarrow> pyval \<Rightarrow> pyval \<Rightarrow> pyval \<Rightarrow> (exn + pyval) + (string \<times> (string \<times> pyval) list)" where
  "resolve_call no_throw' tool_call tool_name tool_args =
     (if tool_call \<noteq> PNone \<and> \<not> is_str_or_dict tool_call then
        Inl (return_or_raise no_throw'
               (Exn TypeError ''`tool_call` must be of type str, dict or None'') PNone)
      else
        (case (if tool_call = PNone then None else parse_tool_call tool_call) of
           Some parsed \<Rightarrow> Inr parsed
         | None \<Rightarrow>
             if tool_name = PNone then Inl (return_or_raise no_throw' unknown_format PNone)
             else
               (case tool_name of
                  PStr n \<Rightarrow>
                    if \<not> strip_nonempty n then
                      Inl (return_or_raise no_throw'
                             (Exn TypeError ''`tool_name` must be a non-empty str'') PNone)
                    else
                      (case (if tool_args = PNone then PDict [] else tool_args) of
                         PDict a \<Rightarrow> Inr (n, a)
                       | _ \<Rightarrow>
                           Inl (return_or_raise no_throw'
                                  (Exn TypeError ''`tool_args` must be a dict or None'') PNone))
                | _ \<Rightarrow>
                    Inl (return_or_raise no_throw'
                           (Exn TypeError ''`tool_name` must be a non-empty str'') PNone))))"

definition not_registered :: "string \<Rightarrow> exn" where
  "not_registered n = Exn ValueError (''`'' @ n @ ''` is not a registered tool'')"

definition execution_failed :: "string \<Rightarrow> exn \<Rightarrow> exn" where
  "execution_failed n ex =
     Exn RuntimeError
       (''Tool `'' @ n @ ''` execution failed. Exception ('' @ class_name (exn_class ex)
          @ ''): '' @ exn_msg ex)"

text \<open>
  \<^verbatim>\<open>run_tool\<close>: the exception raised or the value returned, and the calls made to
  runners (name and keyword arguments), in order.
\<close>

definition run_tool ::
  "registry \<Rightarrow> VerboseSettings \<Rightarrow> pyval \<Rightarrow> pyval \<Rightarrow> pyval
     \<Rightarrow> (exn + pyval) \<times> (string \<times> (string \<times> pyval) list) list" where
  "run_tool tools vs tool_call tool_name tool_args =
     (case resolve_call (no_throw vs) tool_call tool_name tool_args of
        Inl r \<Rightarrow> (r, [])
      | Inr (tool_name_final, tool_args_final) \<Rightarrow>
          (case tools tool_name_final of
             None \<Rightarrow> (return_or_raise (no_throw vs) (not_registered tool_name_final) PNone, [])
           | Some meta \<Rightarrow>
               (case runner meta of
                  Val v \<Rightarrow>
                    (return_or_raise (no_throw vs)
                       (Exn RuntimeError
                          (''Registered tool `'' @ tool_name_final @ ''` has no callable `runner`''))
                       PNone, [])
                | Callable f \<Rightarrow>
                    (case f tool_args_final of
                       Inr v \<Rightarrow> (Inr v, [(tool_name_final, tool_args_final)])
                     | Inl ex \<Rightarrow>
                         (if caught ex then
                            (if no_throw vs then Inr PNone
                             else Inl (execution_failed tool_name_final ex))
                          else Inl ex,
                          [(tool_name_final, tool_args_final)])))))"

subsection \<open>Resolution of the canonical payloads\<close>

lemma loads_name_arguments:
  \<open>json_loads ''{"name":"x","arguments":{"a":1}}'' =
     Inr (PDict [(''name'', PStr ''x''), (''arguments'', PDict [(''a'', PInt 1)])])\<close>
  by code_simp

lemma loads_wrapped_parameters:
  \<open>json_loads ''[{"name":"x","parameters":{}}]'' =
     Inr (PList [PDict [(''name'', PStr ''x''), (''parameters'', PDict [])]])\<close>
  by code_simp

lemma loads_not_json: "json_loads ''not json'' = Inl decode_error"
  by code_simp

lemma parse_name_arguments:
  \<open>parse_tool_call (PStr ''{"name":"x","arguments":{"a":1}}'') = Some (''x'', [(''a'', PInt 1)])\<close>
  by (simp add: parse_tool_call_def decode_payload_def unwrap_payload_def loads_name_arguments
      py_get_def strip_nonempty_def py_isspace_def)

lemma parse_wrapped_parameters:
  \<open>parse_tool_call (PStr ''[{"name":"x","parameters":{}}]'') = Some (''x'', [])\<close>
  by (simp add: parse_tool_call_def decode_payload_def unwrap_payload_def loads_wrapped_parameters
      py_get_def strip_nonempty_def py_isspace_def)

lemma parse_not_json: "parse_tool_call (PStr ''not json'') = None"
  by (simp add: parse_tool_call_def decode_payload_def unwrap_payload_def loads_not_json)

text \<open>
  C3. The three canonical payloads: the object text resolves to the name \<open>x\<close> with the
  arguments \<open>{"a": 1}\<close>; the one-item list is unwrapped and resolves to \<open>x\<close> with no
  arguments; the text \<open>not json\<close> with no fallback name ends \<^verbatim>\<open>run_tool\<close> with the
  \<^verbatim>\<open>ValueError\<close> "Unknown tool-call format ..." when \<open>no_throw\<close> is off and with
  \<^verbatim>\<open>None\<close> when it is on, and no runner is called.
\<close>

theorem resolve_canonical_payloads:
  \<open>resolve_call nt (PStr ''{"name":"x","arguments":{"a":1}}'') tn ta
      = Inr (''x'', [(''a'', PInt 1)])
   \<and> resolve_call nt (PStr ''[{"name":"x","parameters":{}}]'') tn ta = Inr (''x'', [])
   \<and> resolve_call False (PStr ''not json'') PNone ta = Inl (Inl unknown_format)
   \<and> resolve_call True (PStr ''not json'') PNone ta = Inl (Inr PNone)
   \<and> run_tool tools \<lparr>verbose_level = lv, no_throw = False\<rparr> (PStr ''not json'') PNone ta
      = (Inl unknown_format, [])
   \<and> run_tool tools \<lparr>verbose_level = lv, no_throw = True\<rparr> (PStr ''not json'') PNone ta
      = (Inr PNone, [])\<close>
  by (simp add: resolve_call_def run_tool_def parse_name_arguments parse_wrapped_parameters
      parse_not_json return_or_raise_def)

text \<open>
  C4. When the resolved name is not a key of the registry, \<^verbatim>\<open>run_tool\<close> raises the
  \<^verbatim>\<open>ValueError\<close> "... is not a registered tool" if \<open>no_throw\<close> is off and returns
  \<^verbatim>\<open>None\<close> if it is on; in both cases no runner is called.
\<close>

theorem run_unregistered:
  assumes "resolve_call (no_throw vs) tool_call tool_name tool_args = Inr (n, a)"
    and "tools n = None"
  shows "run_tool tools vs tool_call tool_name tool_args =
           (if no_throw vs then Inr PNone else Inl (not_registered n), [])"
  using assms by (simp add: run_tool_def return_or_raise_def)

theorem run_unregistered_witness:
  \<open>resolve_call False (PStr ''{"name":"x","arguments":{"a":1}}'') PNone PNone
      = Inr (''x'', [(''a'', PInt 1)])
   \<and> run_tool Map.empty \<lparr>verbose_level = NONE, no_throw = False\<rparr>
        (PStr ''{"name":"x","arguments":{"a":1}}'') PNone PNone
      = (Inl (not_registered ''x''), [])\<close>
proof -
  have r: \<open>resolve_call (no_throw \<lparr>verbose_level = NONE, no_throw = False\<rparr>)
             (PStr ''{"name":"x","arguments":{"a":1}}'') PNone PNone
           = Inr (''x'', [(''a'', PInt 1)])\<close>
    by (simp add: resolve_call_def parse_name_arguments)
  show ?thesis
    using r run_unregistered [OF r, of Map.empty] by simp
qed

text \<open>
  C5, as the code has it. When the runner of the resolved tool raises an exception
  derived from \<^verbatim>\<open>Exception\<close>, \<^verbatim>\<open>run_tool\<close> raises a \<^verbatim>\<open>RuntimeError\<close> whose message
  carries the class name and the message of the original if \<open>no_throw\<close> is off, and
  returns \<^verbatim>\<open>None\<close> if it is on. The handler is \<^verbatim>\<open>except Exception\<close>: an exception
  derived from \<^verbatim>\<open>BaseException\<close> alone passes through unchanged under both policies.
  In each case the runner has been called once, with the resolved arguments.
\<close>

theorem run_runner_raises:
  assumes "resolve_call (no_throw vs) tool_call tool_name tool_args = Inr (n, a)"
    and "tools n = Some meta"
    and "runner meta = Callable f"
    and "f a = Inl ex"
  shows "run_tool tools vs tool_call tool_name tool_args =
           (if caught ex then
              (if no_throw vs then Inr PNone
               else Inl (Exn RuntimeError
                      (''Tool `'' @ n @ ''` execution failed. Exception (''
                         @ class_name (exn_class ex) @ ''): '' @ exn_msg ex)))
            else Inl ex,
            [(n, a)])"
  using assms by (simp add: run_tool_def execution_failed_def)

definition failing_tool :: "exn \<Rightarrow> entry" where
  "failing_tool ex = \<lparr>description = Val (PStr ''{}''), runner = Callable (\<lambda>a. Inl ex)\<rparr>"

theorem run_runner_raises_witness:
  \<open>run_tool [''x'' \<mapsto> failing_tool (Exn (UserException ''Boom'') ''no luck'')]
      \<lparr>verbose_level = NONE, no_throw = False\<rparr>
      (PStr ''{"name":"x","arguments":{"a":1}}'') PNone PNone
    = (Inl (Exn RuntimeError ''Tool `x` execution failed. Exception (Boom): no luck''),
       [(''x'', [(''a'', PInt 1)])])\<close>
proof -
  have r: \<open>resolve_call (no_throw \<lparr>verbose_level = NONE, no_throw = False\<rparr>)
             (PStr ''{"name":"x","arguments":{"a":1}}'') PNone PNone
           = Inr (''x'', [(''a'', PInt 1)])\<close>
    by (simp add: resolve_call_def parse_name_arguments)
  show ?thesis
    using run_runner_raises [OF r,
        of "[''x'' \<mapsto> failing_tool (Exn (UserException ''Boom'') ''no luck'')]"
           "failing_tool (Exn (UserException ''Boom'') ''no luck'')"
           "\<lambda>a. Inl (Exn (UserException ''Boom'') ''no luck'')"
           "Exn (UserException ''Boom'') ''no luck''"]
    by (simp add: failing_tool_def caught_def)
qed

theorem run_system_exit_counterexample:
  \<open>run_tool [''x'' \<mapsto> failing_tool (Exn SystemExit ''1'')]
      \<lparr>verbose_level = NONE, no_throw = True\<rparr>
      (PStr ''{"name":"x","arguments":{"a":1}}'') PNone PNone
    = (Inl (Exn SystemExit ''1''), [(''x'', [(''a'', PInt 1)])])\<close>
  by (simp add: run_tool_def resolve_call_def parse_name_arguments failing_tool_def caught_def)

section \<open>\<^verbatim>\<open>_tools_finder.find_tools_json\<close>\<close>

subsection \<open>The file system and the tool modules\<close>

text \<open>
  What loading a tool file gives: the module's bindings \<^verbatim>\<open>tool_run\<close> and
  \<^verbatim>\<open>TOOL_DEFINITION\<close> (\<open>None\<close>: the name is not bound).
\<close>

record py_module =
  tool_run :: "pyobj option"
  TOOL_DEFINITION :: "pyobj option"

text \<open>
  A directory entry as the scan sees it. \<open>Dir name is_symlink error entries\<close>: a
  directory, with what \<^verbatim>\<open>iterdir\<close> does on it (the exception raised, or its entries in
  the order they are listed). \<open>File name stat exec\<close>: a file, with what \<^verbatim>\<open>stat\<close> gives
  (an exception or the size in bytes) and what executing it as a module gives (an
  exception or the module). \<open>Other\<close>: neither a directory nor a file.
  \<open>Unreadable name ex\<close>: an entry on which a type test of the scan raises \<open>ex\<close>, that is
  \<^verbatim>\<open>is_dir()\<close>, or \<^verbatim>\<open>is_symlink()\<close> after \<^verbatim>\<open>is_dir()\<close> was true, or \<^verbatim>\<open>is_file()\<close> after
  \<^verbatim>\<open>is_dir()\<close> was false. These tests of \<^verbatim>\<open>pathlib\<close> pass on every \<^verbatim>\<open>OSError\<close> of the
  underlying \<^verbatim>\<open>stat\<close> other than a missing path (a permission error, for one), and the
  scan calls them outside every \<^verbatim>\<open>try\<close>.
\<close>

datatype node =
    Dir string bool "exn option" "node list"
  | File string "exn + nat" "exn + py_module"
  | Other string
  | Unreadable string exn

fun node_size :: "node \<Rightarrow> nat" where
  "node_size (Dir name l e entries) = Suc (sum_list (map node_size entries))"
| "node_size (File name st ex) = 1"
| "node_size (Other name) = 1"
| "node_size (Unreadable name ex) = 1"

fun iterdir :: "node \<Rightarrow> exn + node list" where
  "iterdir (Dir name l None entries) = Inr entries"
| "iterdir (Dir name l (Some ex) entries) = Inl ex"
| "iterdir n = Inl (Exn OSError ''Not a directory'')"

fun node_name :: "node \<Rightarrow> string" where
  "node_name (Dir name l e entries) = name"
| "node_name (File name st ex) = name"
| "node_name (Other name) = name"
| "node_name (Unreadable name ex) = name"

text \<open>
  \<^verbatim>\<open>PurePath.suffix\<close> and \<^verbatim>\<open>PurePath.stem\<close>: the name is split at its last dot, unless
  that dot is the first or the last character.
\<close>

definition rfind_dot :: "string \<Rightarrow> nat option" where
  "rfind_dot name =
     (if CHR ''.'' \<in> set name
      then Some (length name - Suc (length (takeWhile (\<lambda>c. c \<noteq> CHR ''.'') (rev name))))
      else None)"

definition path_suffix :: "string \<Rightarrow> string" where
  "path_suffix name =
     (case rfind_dot name of
        None \<Rightarrow> []
      | Some i \<Rightarrow> if 0 < i \<and> i < length name - 1 then drop i name else [])"

definition path_stem :: "string \<Rightarrow> string" where
  "path_stem name =
     (case rfind_dot name of
        None \<Rightarrow> name
      | Some i \<Rightarrow> if 0 < i \<and> i < length name - 1 then take i name else name)"

definition py_startswith :: "string \<Rightarrow> string \<Rightarrow> bool" where
  "py_startswith s p = (take (length p) s = p)"

definition py_endswith :: "string \<Rightarrow> string \<Rightarrow> bool" where
  "py_endswith s p = (length p \<le> length s \<and> drop (length s - length p) s = p)"

definition MAX_TOOL_FILE_SIZE_BYTES :: nat where
  "MAX_TOOL_FILE_SIZE_BYTES = 1048576"

subsection \<open>The state of a scan\<close>

text \<open>
  The validated arguments of a scan, and its state: the registry \<^verbatim>\<open>tools\<close>, the sink,
  the files executed so far (path and the size \<^verbatim>\<open>stat\<close> reported), the directories
  popped from the stack, the files seen (the code counts the last two; the model keeps
  which), and the remaining draws of the random source. The counters that only feed
  the final summary message are left out.
\<close>

record scan_env =
  vs :: VerboseSettings
  max_depth :: int
  prefix :: string
  suffix :: string
  prettify :: bool
  validate :: bool

record scan_state =
  tools :: registry
  snk :: sink
  loaded :: "(path \<times> nat) list"
  dirs_visited :: "path list"
  files_seen :: "path list"
  draws :: "nat list"

datatype status = Ok | Raised exn | NoReturn

definition say :: "VerboseLevel \<Rightarrow> diag \<Rightarrow> scan_env \<Rightarrow> scan_state \<Rightarrow> scan_state" where
  "say lvl msg env st = st\<lparr>snk := print_verbose lvl msg (vs env) (snk st)\<rparr>"

text \<open>
  A handler \<^verbatim>\<open>except Exception as ex: <log>; if not no_throw: raise; continue\<close>: an
  exception outside \<^verbatim>\<open>Exception\<close> is not caught at all.
\<close>

definition handle_or_skip ::
  "scan_env \<Rightarrow> exn \<Rightarrow> VerboseLevel \<Rightarrow> diag \<Rightarrow> scan_state \<Rightarrow> status \<times> scan_state" where
  "handle_or_skip env ex lvl msg st =
     (if caught ex then
        (if \<not> no_throw (vs env) then (Raised ex, say lvl msg env st)
         else (Ok, say lvl msg env st))
      else (Raised ex, st))"

subsection \<open>One candidate file\<close>

definition module_name_of :: "scan_env \<Rightarrow> string \<Rightarrow> string" where
  "module_name_of env stem =
     (let module_name = drop (length (prefix env)) stem in
      if suffix env \<noteq> [] then take (length module_name - length (suffix env)) module_name
      else module_name)"

definition getattr :: "pyobj option \<Rightarrow> pyobj" where
  "getattr binding = (case binding of None \<Rightarrow> Val PNone | Some obj \<Rightarrow> obj)"

fun callable :: "pyobj \<Rightarrow> bool" where
  "callable (Callable f) = True"
| "callable (Val v) = False"

text \<open>
  The body of the second \<^verbatim>\<open>try\<close>: the runner and the description, or the exception
  raised on the way, with the sink and the draws as \<^verbatim>\<open>prettify_json\<close> leaves them.
  \<open>None\<close>: the token loop of \<^verbatim>\<open>prettify_json\<close> has not returned.
\<close>

definition extract_fields ::
  "scan_env \<Rightarrow> py_module \<Rightarrow> sink \<Rightarrow> nat list
     \<Rightarrow> ((exn + pyobj \<times> string) \<times> sink \<times> nat list) option" where
  "extract_fields env module s us =
     (let runner' = getattr (tool_run module);
          description_obj = getattr (TOOL_DEFINITION module)
      in if \<not> callable runner' then
           Some (Inl (Exn AttributeError ''Missing or non-callable `tool_run`''), s, us)
         else
           (case description_obj of
              Val (PStr description') \<Rightarrow>
                (case (if validate env \<or> prettify env
                       then is_valid_json description' (no_throw (vs env))
                       else Inr (True, None, None)) of
                   Inl ex \<Rightarrow> Some (Inl ex, s, us)
                 | Inr (result, parsed, error_message) \<Rightarrow>
                     if \<not> result then
                       Some (Inl (Exn ValueError
                                    (case error_message of
                                       None \<Rightarrow> ''`TOOL_DEFINITION` is not valid JSON''
                                     | Some m \<Rightarrow>
                                         if m = [] then ''`TOOL_DEFINITION` is not valid JSON''
                                         else m)),
                             s, us)
                     else if prettify env then
                       (case prettify_json description' (vs env) s us of
                          None \<Rightarrow> None
                        | Some (Inl ex, s', us') \<Rightarrow> Some (Inl ex, s', us')
                        | Some (Inr pretty, s', us') \<Rightarrow> Some (Inr (runner', pretty), s', us'))
                     else Some (Inr (runner', description'), s, us))
            | _ \<Rightarrow>
                Some (Inl (Exn TypeError ''`TOOL_DEFINITION` must be a JSON string (type str)''),
                      s, us)))"

definition accept_tool ::
  "scan_env \<Rightarrow> string \<Rightarrow> string \<Rightarrow> pyobj \<Rightarrow> string \<Rightarrow> scan_state \<Rightarrow> scan_state" where
  "accept_tool env module_name name runner' description' st =
     (let st1 = (if module_name \<in> dom (tools st)
                 then say LOW (Overwriting module_name) env st else st);
          st2 = st1\<lparr>tools := (tools st1)(module_name \<mapsto>
                     \<lparr>description = Val (PStr description'), runner = runner'\<rparr>)\<rparr>
      in say MID (LoadedTool module_name name) env st2)"

text \<open>Loading, extraction and registration of a candidate that passed the size guard.\<close>

definition load_candidate ::
  "scan_env \<Rightarrow> path \<Rightarrow> string \<Rightarrow> nat \<Rightarrow> exn + py_module \<Rightarrow> scan_state
     \<Rightarrow> status \<times> scan_state" where
  "load_candidate env p name size' exec st =
     (let module_name = module_name_of env (path_stem name);
          st1 = st\<lparr>loaded := loaded st @ [(p, size')]\<rparr>
      in case exec of
           Inl ex \<Rightarrow> handle_or_skip env ex LOW (ImportFailed name ex) st1
         | Inr module \<Rightarrow>
             (case extract_fields env module (snk st1) (draws st1) of
                None \<Rightarrow> (NoReturn, st1)
              | Some (r, s', us') \<Rightarrow>
                  (case r of
                     Inl ex \<Rightarrow>
                       handle_or_skip env ex LOW (SkippingFile name ex)
                         (st1\<lparr>snk := s', draws := us'\<rparr>)
                   | Inr (runner', description') \<Rightarrow>
                       (Ok, accept_tool env module_name name runner' description'
                              (st1\<lparr>snk := s', draws := us'\<rparr>)))))"

text \<open>The body of the loop over the entries, for an entry that is a file.\<close>

definition process_file ::
  "scan_env \<Rightarrow> path \<Rightarrow> string \<Rightarrow> exn + nat \<Rightarrow> exn + py_module \<Rightarrow> scan_state
     \<Rightarrow> status \<times> scan_state" where
  "process_file env p name stat exec st0 =
     (let st = st0\<lparr>files_seen := files_seen st0 @ [p]\<rparr>;
          stem = path_stem name
      in if path_suffix name \<noteq> ''.py'' then (Ok, st)
         else if \<not> (py_startswith stem (prefix env) \<and> py_endswith stem (suffix env))
           then (Ok, st)
         else if length stem \<le> length (prefix env) + length (suffix env)
           then (Ok, say HIGH (RejectedNoMiddle name) env st)
         else
           (case stat of
              Inl ex \<Rightarrow> handle_or_skip env ex HIGH (CannotStat p ex) st
            | Inr size' \<Rightarrow>
                if size' > MAX_TOOL_FILE_SIZE_BYTES
                then (Ok, say LOW (SkippingTooBig name size') env st)
                else load_candidate env p name size' exec st))"

subsection \<open>The traversal\<close>

text \<open>
  A stack item is a directory with its path and depth. \<open>process_entry\<close> is the body of
  the loop over the entries of the directory at \<open>p\<close>; the directories it pushes are
  collected in \<open>pushed\<close>, in the order of the pushes. An exception of a type test is
  under no handler: it leaves the scan whatever \<open>no_throw\<close> is.
\<close>

type_synonym stack_item = "node \<times> path \<times> nat"

fun process_entry ::
  "scan_env \<Rightarrow> path \<Rightarrow> nat \<Rightarrow> node \<Rightarrow> stack_item list \<times> scan_state
     \<Rightarrow> status \<times> stack_item list \<times> scan_state" where
  "process_entry env p depth (Dir name is_symlink e entries) (pushed, st) =
     (if is_symlink then (Ok, pushed, say HIGH (SkippingSymlink (p @ [name])) env st)
      else if int depth \<ge> max_depth env
        then (Ok, pushed, say HIGH (MaxDepthReached (p @ [name])) env st)
      else (Ok, pushed @ [(Dir name is_symlink e entries, p @ [name], depth + 1)], st))"
| "process_entry env p depth (Other name) (pushed, st) = (Ok, pushed, st)"
| "process_entry env p depth (Unreadable name ex) (pushed, st) = (Raised ex, pushed, st)"
| "process_entry env p depth (File name stat exec) (pushed, st) =
     (case process_file env (p @ [name]) name stat exec st of (r, st') \<Rightarrow> (r, pushed, st'))"

fun process_entries ::
  "scan_env \<Rightarrow> path \<Rightarrow> nat \<Rightarrow> node list \<Rightarrow> stack_item list \<times> scan_state
     \<Rightarrow> status \<times> stack_item list \<times> scan_state" where
  "process_entries env p depth [] acc = (Ok, acc)"
| "process_entries env p depth (entry # entries) acc =
     (case process_entry env p depth entry acc of
        (Ok, acc') \<Rightarrow> process_entries env p depth entries acc'
      | (r, acc') \<Rightarrow> (r, acc'))"

text \<open>One round of the \<^verbatim>\<open>while\<close> loop, for the directory popped from the stack.\<close>

definition visit_dir ::
  "scan_env \<Rightarrow> stack_item \<Rightarrow> scan_state \<Rightarrow> status \<times> stack_item list \<times> scan_state" where
  "visit_dir env item st =
     (case item of (current_dir, p, depth) \<Rightarrow>
        (let st1 = say HIGH (Traversing p depth) env (st\<lparr>dirs_visited := dirs_visited st @ [p]\<rparr>)
         in case iterdir current_dir of
              Inl ex \<Rightarrow>
                (case handle_or_skip env ex LOW (CannotList p ex) st1 of
                   (r, st2) \<Rightarrow> (r, [], st2))
            | Inr entries \<Rightarrow> process_entries env p depth entries ([], st1)))"

definition stack_size :: "stack_item list \<Rightarrow> nat" where
  "stack_size items = sum_list (map (\<lambda>item. node_size (fst item)) items)"

lemma stack_size_append [simp]: "stack_size (xs @ ys) = stack_size xs + stack_size ys"
  by (simp add: stack_size_def)

lemma stack_size_Cons [simp]: "stack_size (x # xs) = node_size (fst x) + stack_size xs"
  by (simp add: stack_size_def)

lemma stack_size_rev [simp]: "stack_size (rev xs) = stack_size xs"
  by (induction xs) (simp_all add: stack_size_def)

lemma process_entry_pushed:
  "process_entry env p depth entry (pushed, st) = (r, pushed', st')
     \<Longrightarrow> stack_size pushed' \<le> stack_size pushed + node_size entry"
  by (cases entry) (auto simp: stack_size_def split: if_splits prod.splits)

lemma process_entries_pushed:
  "process_entries env p depth entries (pushed, st) = (r, pushed', st')
     \<Longrightarrow> stack_size pushed' \<le> stack_size pushed + sum_list (map node_size entries)"
proof (induction entries arbitrary: pushed st)
  case Nil
  then show ?case by simp
next
  case (Cons entry entries)
  obtain r1 pushed1 st1 where e: "process_entry env p depth entry (pushed, st) = (r1, pushed1, st1)"
    by (metis prod_cases3)
  have le1: "stack_size pushed1 \<le> stack_size pushed + node_size entry"
    using process_entry_pushed [OF e] .
  show ?case
  proof (cases r1)
    case Ok
    with Cons.prems e have "process_entries env p depth entries (pushed1, st1) = (r, pushed', st')"
      by simp
    from Cons.IH [OF this] le1 show ?thesis by simp
  next
    case (Raised ex)
    with Cons.prems e le1 show ?thesis by auto
  next
    case NoReturn
    with Cons.prems e le1 show ?thesis by auto
  qed
qed

lemma visit_dir_pushed:
  assumes "visit_dir env (current_dir, p, depth) st = (r, pushed, st')"
  shows "stack_size pushed < node_size current_dir"
proof (cases "iterdir current_dir")
  case (Inl ex)
  with assms have "pushed = []"
    by (auto simp: visit_dir_def Let_def split: prod.splits)
  then show ?thesis by (cases current_dir) (simp_all add: stack_size_def)
next
  case (Inr entries)
  then have sz: "node_size current_dir = Suc (sum_list (map node_size entries))"
    by (cases current_dir rule: iterdir.cases) simp_all
  from assms Inr have "stack_size pushed \<le> stack_size [] + sum_list (map node_size entries)"
    by (intro process_entries_pushed) (simp add: visit_dir_def Let_def)
  with sz show ?thesis by (simp add: stack_size_def)
qed

text \<open>
  The \<^verbatim>\<open>while stack:\<close> loop. The stack is kept with its top first: \<^verbatim>\<open>stack.pop()\<close>
  takes the head, and the directories pushed while the entries were read end up
  above the rest, the last pushed on top.
\<close>

function scan_loop :: "scan_env \<Rightarrow> stack_item list \<Rightarrow> scan_state \<Rightarrow> status \<times> scan_state" where
  "scan_loop env [] st = (Ok, st)"
| "scan_loop env (item # stack) st =
     (case visit_dir env item st of
        (Ok, pushed, st') \<Rightarrow> scan_loop env (rev pushed @ stack) st'
      | (r, pushed, st') \<Rightarrow> (r, st'))"
  by pat_completeness auto
termination
proof (relation "measure (\<lambda>(env, stack, st). stack_size stack)", goal_cases)
  case 1
  then show ?case by simp
next
  case (2 env item stack st x1 x2 x1a x2a)
  obtain current_dir p depth where item: "item = (current_dir, p, depth)"
    by (metis prod_cases3)
  from 2 item have "visit_dir env (current_dir, p, depth) st = (x1, x1a, x2a)"
    by simp
  from visit_dir_pushed [OF this] item show ?case
    by simp
qed

subsection \<open>The whole scan\<close>

fun as_int :: "pyval \<Rightarrow> int option" where
  "as_int (PInt i) = Some i"
| "as_int (PBool b) = Some (if b then 1 else 0)"
| "as_int v = None"

fun as_opt_str :: "pyval \<Rightarrow> string option" where
  "as_opt_str PNone = Some []"
| "as_opt_str (PStr s) = Some s"
| "as_opt_str v = None"

definition init_state :: "nat list \<Rightarrow> scan_state" where
  "init_state us =
     \<lparr>tools = Map.empty, snk = \<lparr>issued = [], written = []\<rparr>, loaded = [],
      dirs_visited = [], files_seen = [], draws = us\<rparr>"

text \<open>The loop from the base directory, and the two closing messages.\<close>

definition scan_from :: "scan_env \<Rightarrow> node \<Rightarrow> nat list \<Rightarrow> status \<times> scan_state" where
  "scan_from env base_node us =
     (case scan_loop env [(base_node, [], 0)] (init_state us) of
        (Ok, st) \<Rightarrow> (Ok, say LOW ScanFinished env (say MID LoadedTools env st))
      | (r, st) \<Rightarrow> (r, st))"

definition give_up :: "VerboseSettings \<Rightarrow> exn \<Rightarrow> nat list \<Rightarrow> status \<times> scan_state" where
  "give_up vs' ex us =
     (case return_or_raise (no_throw vs') ex (Map.empty :: registry) of
        Inl e \<Rightarrow> (Raised e, init_state us)
      | Inr r \<Rightarrow> (Ok, (init_state us)\<lparr>tools := r\<rparr>))"

fun as_bool :: "pyval \<Rightarrow> bool option" where
  "as_bool (PBool b) = Some b"
| "as_bool v = None"

fun as_str :: "pyval \<Rightarrow> string option" where
  "as_str (PStr s) = Some s"
| "as_str v = None"

text \<open>
  The checks of the arguments, in the order of the code (a \<^verbatim>\<open>bool\<close> is an \<^verbatim>\<open>int\<close>):
  the first failing check gives its exception, otherwise the base path and the
  validated arguments come back.
\<close>

definition check_args ::
  "pyval \<Rightarrow> VerboseSettings \<Rightarrow> pyval \<Rightarrow> pyval \<Rightarrow> pyval \<Rightarrow> pyval \<Rightarrow> pyval
     \<Rightarrow> exn + string \<times> scan_env" where
  "check_args base_dir vs' max_depth' prefix' suffix' prettify' validate' =
     (case as_str base_dir of
        None \<Rightarrow> Inl (Exn TypeError ''`base_dir` must be a non-empty str or `Path` instance'')
      | Some base \<Rightarrow>
     (case as_int max_depth' of
        None \<Rightarrow> Inl (Exn TypeError ''`max_depth` must be of type int'')
      | Some md \<Rightarrow>
     if md < 0 then Inl (Exn ValueError ''`max_depth` value must be >= 0'')
     else
     (case as_opt_str prefix' of
        None \<Rightarrow> Inl (Exn TypeError ''`prefix` must be a of type str or None'')
      | Some pre \<Rightarrow>
     (case as_opt_str suffix' of
        None \<Rightarrow> Inl (Exn TypeError ''`suffix` must be a of type str or None'')
      | Some suf \<Rightarrow>
     (case as_bool prettify' of
        None \<Rightarrow> Inl (Exn TypeError ''`prettify` must be a of type bool'')
      | Some pr \<Rightarrow>
     (case as_bool validate' of
        None \<Rightarrow> Inl (Exn TypeError ''`validate` must be a of type bool'')
      | Some va \<Rightarrow>
          Inr (base, \<lparr>vs = vs', max_depth = md, prefix = pre, suffix = suf, prettify = pr,
                      validate = (if pr then False else va)\<rparr>)))))))"

text \<open>
  \<^verbatim>\<open>find_tools_json\<close>. \<open>fs\<close> is the file system: what resolving the base path gives
  (an exception, nothing, or the node found there). \<open>us\<close> are the draws of the random
  source. The result \<open>(Ok, st)\<close> stands for the return of \<open>tools st\<close>. The test
  \<^verbatim>\<open>base_path.is_dir()\<close> is under no handler either.
\<close>

definition find_tools_json ::
  "(string \<Rightarrow> exn + node option) \<Rightarrow> pyval \<Rightarrow> VerboseSettings \<Rightarrow> pyval \<Rightarrow> pyval \<Rightarrow> pyval
     \<Rightarrow> pyval \<Rightarrow> pyval \<Rightarrow> nat list \<Rightarrow> status \<times> scan_state" where
  "find_tools_json fs base_dir vs' max_depth' prefix' suffix' prettify' validate' us =
     (case check_args base_dir vs' max_depth' prefix' suffix' prettify' validate' of
        Inl ex \<Rightarrow> give_up vs' ex us
      | Inr (base, env) \<Rightarrow>
          (case fs base of
             Inl ex \<Rightarrow>
               if caught ex then
                 give_up vs'
                   (Exn RuntimeError
                      (''Failed to resolve base path. Exception ('' @ class_name (exn_class ex)
                         @ ''): '' @ exn_msg ex)) us
               else (Raised ex, init_state us)
           | Inr found \<Rightarrow>
               (case found of
                  Some (Dir name l e entries) \<Rightarrow> scan_from env (Dir name l e entries) us
                | Some (Unreadable name ex) \<Rightarrow> (Raised ex, init_state us)
                | _ \<Rightarrow>
                    give_up vs'
                      (Exn FileNotFoundError
                         ''Base directory does not exist or is not a directory'') us)))"

section \<open>Properties of the scan\<close>

subsection \<open>What the steps leave unchanged\<close>

lemma check_args_env:
  assumes "check_args base_dir vs' md' pre' suf' pr' va' = Inr (base, env)"
  shows "vs env = vs' \<and> 0 \<le> max_depth env \<and> as_int md' = Some (max_depth env) \<and> base_dir = PStr base"
  using assms unfolding check_args_def
  by (cases base_dir) (auto split: option.splits if_splits)

lemma find_tools_json_cases:
  "(\<exists>ex. find_tools_json fs base_dir vs' md' pre' suf' pr' va' us = give_up vs' ex us)
   \<or> (\<exists>ex. find_tools_json fs base_dir vs' md' pre' suf' pr' va' us = (Raised ex, init_state us))
   \<or> (\<exists>base env name l e entries.
        find_tools_json fs base_dir vs' md' pre' suf' pr' va' us = scan_from env (Dir name l e entries) us
        \<and> check_args base_dir vs' md' pre' suf' pr' va' = Inr (base, env)
        \<and> fs base = Inr (Some (Dir name l e entries)))"
proof (cases "check_args base_dir vs' md' pre' suf' pr' va'")
  case (Inl ex)
  then show ?thesis by (auto simp: find_tools_json_def)
next
  case (Inr be)
  obtain base env where be: "be = (base, env)" by (cases be)
  show ?thesis
  proof (cases "fs base")
    case (Inl ex)
    with Inr be show ?thesis by (auto simp: find_tools_json_def)
  next
    case found: (Inr found)
    show ?thesis
    proof (cases found)
      case None
      with Inr be found show ?thesis by (auto simp: find_tools_json_def)
    next
      case (Some nd)
      with Inr be found show ?thesis by (cases nd) (auto simp: find_tools_json_def)
    qed
  qed
qed

lemma give_up_state [simp]: "snd (give_up vs' ex us) = init_state us"
  by (simp add: give_up_def return_or_raise_def init_state_def)

lemma say_fields [simp]:
  "tools (say lvl msg env st) = tools st"
  "loaded (say lvl msg env st) = loaded st"
  "dirs_visited (say lvl msg env st) = dirs_visited st"
  "files_seen (say lvl msg env st) = files_seen st"
  "draws (say lvl msg env st) = draws st"
  by (simp_all add: say_def)

lemma handle_or_skip_fields [simp]:
  "tools (snd (handle_or_skip env ex lvl msg st)) = tools st"
  "loaded (snd (handle_or_skip env ex lvl msg st)) = loaded st"
  "dirs_visited (snd (handle_or_skip env ex lvl msg st)) = dirs_visited st"
  "files_seen (snd (handle_or_skip env ex lvl msg st)) = files_seen st"
  by (simp_all add: handle_or_skip_def)

lemma accept_tool_fields [simp]:
  "loaded (accept_tool env mn name r d st) = loaded st"
  "dirs_visited (accept_tool env mn name r d st) = dirs_visited st"
  "files_seen (accept_tool env mn name r d st) = files_seen st"
  "tools (accept_tool env mn name r d st) = (tools st)(mn \<mapsto> \<lparr>description = Val (PStr d), runner = r\<rparr>)"
  by (simp_all add: accept_tool_def Let_def)

lemma module_name_empty_iff:
  "module_name_of env stem = [] \<longleftrightarrow> length stem \<le> length (prefix env) + length (suffix env)"
  by (auto simp: module_name_of_def Let_def)

lemma extract_fields_Inr:
  assumes "extract_fields env m s us = Some (Inr (r, d), s', us')"
  shows "callable r \<and> r = getattr (tool_run m) \<and> (\<exists>d0. getattr (TOOL_DEFINITION m) = Val (PStr d0))"
proof -
  have c: "callable (getattr (tool_run m))"
    using assms by (auto simp: extract_fields_def Let_def split: if_splits)
  obtain d0 where d0: "getattr (TOOL_DEFINITION m) = Val (PStr d0)"
    using assms c
    by (cases "getattr (TOOL_DEFINITION m)")
       (auto simp: extract_fields_def Let_def split: pyval.splits)
  have "r = getattr (tool_run m)"
    using assms c d0
    by (auto simp: extract_fields_def Let_def split: if_splits sum.splits option.splits prod.splits)
  with c d0 show ?thesis by blast
qed

lemma load_candidate_loaded:
  "loaded (snd (load_candidate env p name sz exec st)) = loaded st @ [(p, sz)]"
  by (auto simp: load_candidate_def Let_def split: sum.splits option.splits prod.splits)

lemma load_candidate_seen:
  "files_seen (snd (load_candidate env p name sz exec st)) = files_seen st"
  "dirs_visited (snd (load_candidate env p name sz exec st)) = dirs_visited st"
  by (auto simp: load_candidate_def Let_def split: sum.splits option.splits prod.splits)

lemma process_file_seen:
  "files_seen (snd (process_file env p name stat exec st)) = files_seen st @ [p]"
  "dirs_visited (snd (process_file env p name stat exec st)) = dirs_visited st"
  by (auto simp: process_file_def Let_def load_candidate_seen split: sum.splits)

lemma process_file_loaded:
  "loaded (snd (process_file env p name stat exec st)) = loaded st
   \<or> (\<exists>sz. stat = Inr sz \<and> sz \<le> MAX_TOOL_FILE_SIZE_BYTES
        \<and> loaded (snd (process_file env p name stat exec st)) = loaded st @ [(p, sz)])"
  by (auto simp: process_file_def Let_def load_candidate_loaded split: sum.splits)

subsection \<open>Invariants of the traversal\<close>

lemma process_entry_preserves:
  assumes pf: "\<And>name stat exec st. P st \<Longrightarrow> P (snd (process_file env (p @ [name]) name stat exec st))"
    and log: "\<And>lvl msg st. P st \<Longrightarrow> P (say lvl msg env st)"
    and "P st"
  shows "P (snd (snd (process_entry env p depth entry (pushed, st))))"
proof (cases entry)
  case (Dir name l e entries)
  with log [OF \<open>P st\<close>] \<open>P st\<close> show ?thesis by simp
next
  case (File name stat exec)
  with pf [OF \<open>P st\<close>, of name stat exec] show ?thesis by (simp add: case_prod_beta)
next
  case (Other name)
  with \<open>P st\<close> show ?thesis by simp
next
  case (Unreadable name ex)
  with \<open>P st\<close> show ?thesis by simp
qed

lemma process_entries_preserves:
  assumes pf: "\<And>name stat exec st. P st \<Longrightarrow> P (snd (process_file env (p @ [name]) name stat exec st))"
    and log: "\<And>lvl msg st. P st \<Longrightarrow> P (say lvl msg env st)"
  shows "P st \<Longrightarrow> P (snd (snd (process_entries env p depth entries (pushed, st))))"
proof (induction entries arbitrary: pushed st)
  case Nil
  then show ?case by simp
next
  case (Cons entry entries)
  obtain r1 pushed1 st1 where e: "process_entry env p depth entry (pushed, st) = (r1, pushed1, st1)"
    by (metis prod_cases3)
  have "P (snd (snd (process_entry env p depth entry (pushed, st))))"
    by (rule process_entry_preserves [OF pf log Cons.prems])
  with e have p1: "P st1" by simp
  show ?case
  proof (cases r1)
    case Ok
    with e Cons.IH [OF p1, of pushed1] show ?thesis by simp
  next
    case (Raised ex)
    with e p1 show ?thesis by simp
  next
    case NoReturn
    with e p1 show ?thesis by simp
  qed
qed

lemma visit_dir_preserves:
  assumes pf: "\<And>name stat exec st. P st \<Longrightarrow> P (snd (process_file env (p @ [name]) name stat exec st))"
    and log: "\<And>lvl msg st. P st \<Longrightarrow> P (say lvl msg env st)"
    and dir: "\<And>st. P st \<Longrightarrow> P (st\<lparr>dirs_visited := dirs_visited st @ [p]\<rparr>)"
    and "P st"
  shows "P (snd (snd (visit_dir env (current_dir, p, depth) st)))"
proof -
  let ?st1 = "say HIGH (Traversing p depth) env (st\<lparr>dirs_visited := dirs_visited st @ [p]\<rparr>)"
  have p1: "P ?st1" by (intro log dir \<open>P st\<close>)
  show ?thesis
  proof (cases "iterdir current_dir")
    case (Inl ex)
    have "P (snd (handle_or_skip env ex LOW (CannotList p ex) ?st1))"
      using p1 log [OF p1] by (simp add: handle_or_skip_def)
    with Inl show ?thesis by (simp add: visit_dir_def Let_def case_prod_beta)
  next
    case (Inr entries)
    with process_entries_preserves [of P env p, OF pf log p1] show ?thesis
      by (simp add: visit_dir_def Let_def)
  qed
qed

lemma process_entry_pushed_items:
  assumes "process_entry env p depth entry (pushed, st) = (r, pushed', st')"
    and "i \<in> set pushed'"
  shows "i \<in> set pushed \<or> (\<exists>d. i = (d, p @ [node_name d], depth + 1) \<and> int depth < max_depth env)"
  using assms by (cases entry) (auto split: if_splits prod.splits)

lemma process_entries_pushed_items:
  "process_entries env p depth entries (pushed, st) = (r, pushed', st') \<Longrightarrow> i \<in> set pushed'
    \<Longrightarrow> i \<in> set pushed \<or> (\<exists>d. i = (d, p @ [node_name d], depth + 1) \<and> int depth < max_depth env)"
proof (induction entries arbitrary: pushed st)
  case Nil
  then show ?case by simp
next
  case (Cons entry entries)
  obtain r1 pushed1 st1 where e: "process_entry env p depth entry (pushed, st) = (r1, pushed1, st1)"
    by (metis prod_cases3)
  show ?case
  proof (cases r1)
    case Ok
    with Cons.prems e have "process_entries env p depth entries (pushed1, st1) = (r, pushed', st')"
      by simp
    from Cons.IH [OF this Cons.prems(2)] process_entry_pushed_items [OF e] show ?thesis by blast
  next
    case (Raised ex)
    with Cons.prems e process_entry_pushed_items [OF e] show ?thesis by auto
  next
    case NoReturn
    with Cons.prems e process_entry_pushed_items [OF e] show ?thesis by auto
  qed
qed

lemma visit_dir_pushed_items:
  assumes "visit_dir env (current_dir, p, depth) st = (r, pushed, st')" and "i \<in> set pushed"
  shows "\<exists>d. i = (d, p @ [node_name d], depth + 1) \<and> int depth < max_depth env"
proof (cases "iterdir current_dir")
  case (Inl ex)
  with assms show ?thesis by (auto simp: visit_dir_def Let_def split: prod.splits)
next
  case (Inr entries)
  with assms(1) have "process_entries env p depth entries ([], say HIGH (Traversing p depth) env (st\<lparr>dirs_visited := dirs_visited st @ [p]\<rparr>)) = (r, pushed, st')"
    by (simp add: visit_dir_def Let_def)
  from process_entries_pushed_items [OF this assms(2)] show ?thesis by simp
qed

lemma scan_loop_invariant:
  "(\<And>item st r pushed st'. Q item \<Longrightarrow> P st \<Longrightarrow> visit_dir env item st = (r, pushed, st')
       \<Longrightarrow> P st' \<and> (\<forall>i\<in>set pushed. Q i))
   \<Longrightarrow> \<forall>i\<in>set stack. Q i \<Longrightarrow> P st \<Longrightarrow> P (snd (scan_loop env stack st))"
proof (induction env stack st rule: scan_loop.induct)
  case (1 env st)
  then show ?case by simp
next
  case (2 env item stack st)
  obtain r pushed st' where v: "visit_dir env item st = (r, pushed, st')"
    by (metis prod_cases3)
  from "2.prems"(2) have qi: "Q item" by simp
  from "2.prems"(1) [OF qi "2.prems"(3) v] have p': "P st'" and qp: "\<forall>i\<in>set pushed. Q i"
    by auto
  show ?case
  proof (cases r)
    case Ok
    have "\<forall>i\<in>set (rev pushed @ stack). Q i" using qp "2.prems"(2) by auto
    from "2.IH" [OF v [symmetric] Ok refl "2.prems"(1) this p'] v Ok show ?thesis by simp
  next
    case (Raised ex)
    with v p' show ?thesis by simp
  next
    case NoReturn
    with v p' show ?thesis by simp
  qed
qed

lemma scan_from_snd:
  "snd (scan_from env d us) =
     (if fst (scan_loop env [(d, [], 0)] (init_state us)) = Ok
      then say LOW ScanFinished env
             (say MID LoadedTools env (snd (scan_loop env [(d, [], 0)] (init_state us))))
      else snd (scan_loop env [(d, [], 0)] (init_state us)))"
  by (cases "scan_loop env [(d, [], 0)] (init_state us)")
     (auto simp: scan_from_def split: status.splits)

lemma scan_from_fst: "fst (scan_from env d us) = fst (scan_loop env [(d, [], 0)] (init_state us))"
  by (cases "scan_loop env [(d, [], 0)] (init_state us)")
     (auto simp: scan_from_def split: status.splits)

lemma scan_loop_preserves:
  assumes pf: "\<And>p name stat exec st. P st \<Longrightarrow> P (snd (process_file env p name stat exec st))"
    and log: "\<And>lvl msg st. P st \<Longrightarrow> P (say lvl msg env st)"
    and dir: "\<And>st p. P st \<Longrightarrow> P (st\<lparr>dirs_visited := dirs_visited st @ [p]\<rparr>)"
    and "P st"
  shows "P (snd (scan_loop env stack st))"
proof (rule scan_loop_invariant [where Q = "\<lambda>i. True"])
  fix item :: stack_item and st r pushed st'
  assume "P st" and v: "visit_dir env item st = (r, pushed, st')"
  obtain d p depth where item: "item = (d, p, depth)" by (metis prod_cases3)
  have "P (snd (snd (visit_dir env (d, p, depth) st)))"
    by (rule visit_dir_preserves [of P, OF pf log dir \<open>P st\<close>])
  with v item show "P st' \<and> (\<forall>i\<in>set pushed. True)" by simp
qed (simp_all add: \<open>P st\<close>)

lemma find_tools_json_preserves:
  assumes pf: "\<And>env p name stat exec st. P st \<Longrightarrow> P (snd (process_file env p name stat exec st))"
    and log: "\<And>env lvl msg st. P st \<Longrightarrow> P (say lvl msg env st)"
    and dir: "\<And>st p. P st \<Longrightarrow> P (st\<lparr>dirs_visited := dirs_visited st @ [p]\<rparr>)"
    and init: "P (init_state us)"
  shows "P (snd (find_tools_json fs base_dir vs' md' pre' suf' pr' va' us))"
proof -
  have loop: "P (snd (scan_loop env stack (init_state us)))" for env stack
    by (rule scan_loop_preserves [of P, OF pf log dir init])
  have "P (snd (scan_from env d us))" for env d
    using loop [of env "[(d, [], 0)]"] log by (simp add: scan_from_snd)
  with find_tools_json_cases [of fs base_dir vs' md' pre' suf' pr' va' us] init
  show ?thesis by auto
qed

subsection \<open>A small tree for the examples\<close>

definition ok_module :: py_module where
  "ok_module =
     \<lparr>tool_run = Some (Callable (\<lambda>a. Inr PNone)), TOOL_DEFINITION = Some (Val (PStr ''{}''))\<rparr>"

definition demo_env :: scan_env where
  "demo_env =
     \<lparr>vs = \<lparr>verbose_level = LOW, no_throw = False\<rparr>, max_depth = 0, prefix = [],
      suffix = ''_tool'', prettify = False, validate = False\<rparr>"

definition demo_tree :: node where
  "demo_tree =
     Dir ''tools'' False None
       [File ''a_tool.py'' (Inr 10) (Inr ok_module),
        File ''_tool.py'' (Inr 10) (Inr ok_module),
        File ''big_tool.py'' (Inr 2000000) (Inr ok_module),
        Dir ''sub'' False None [File ''b_tool.py'' (Inr 10) (Inr ok_module)]]"

definition demo_scan :: "bool \<Rightarrow> int \<Rightarrow> status \<times> scan_state" where
  "demo_scan nt md =
     find_tools_json (\<lambda>b. Inr (Some demo_tree)) (PStr ''tools'')
       \<lparr>verbose_level = LOW, no_throw = nt\<rparr> (PInt md) PNone (PStr ''_tool'')
       (PBool False) (PBool False) []"

lemmas scan_simps =
  find_tools_json_def check_args_def scan_from_def init_state_def visit_dir_def say_def
  print_verbose_def process_file_def load_candidate_def extract_fields_def accept_tool_def
  getattr_def path_stem_def path_suffix_def rfind_dot_def py_startswith_def py_endswith_def
  module_name_of_def MAX_TOOL_FILE_SIZE_BYTES_def includes_level_def handle_or_skip_def
  caught_def give_up_def return_or_raise_def Let_def

lemma demo_scan_depth0:
  "fst (demo_scan False 0) = Ok"
  "dom (tools (snd (demo_scan False 0))) = {''a''}"
  "tools (snd (demo_scan False 0)) ''a''
     = Some \<lparr>description = Val (PStr ''{}''), runner = Callable (\<lambda>a. Inr PNone)\<rparr>"
  "loaded (snd (demo_scan False 0)) = [([''a_tool.py''], 10)]"
  "dirs_visited (snd (demo_scan False 0)) = [[]]"
  "files_seen (snd (demo_scan False 0)) = [[''a_tool.py''], [''_tool.py''], [''big_tool.py'']]"
  by (simp_all add: demo_scan_def demo_tree_def ok_module_def scan_simps)

subsection \<open>Rejection of a name with no middle part\<close>

text \<open>
  C7. A file whose stem starts with the prefix and ends with the suffix, and whose
  middle segment (the stem with prefix and suffix removed, as the code computes the
  module name) is empty, is not a candidate: the loop body goes on to the next entry,
  the file is not loaded and the registry is unchanged.
\<close>

theorem empty_middle_rejected:
  assumes "py_startswith (path_stem name) (prefix env)"
    and "py_endswith (path_stem name) (suffix env)"
    and "module_name_of env (path_stem name) = []"
  shows "fst (process_file env p name stat exec st) = Ok
         \<and> tools (snd (process_file env p name stat exec st)) = tools st
         \<and> loaded (snd (process_file env p name stat exec st)) = loaded st"
  using assms by (simp add: process_file_def Let_def module_name_empty_iff)

theorem empty_middle_rejected_witness:
  "py_startswith (path_stem ''_tool.py'') (prefix demo_env)
   \<and> py_endswith (path_stem ''_tool.py'') (suffix demo_env)
   \<and> module_name_of demo_env (path_stem ''_tool.py'') = []
   \<and> fst (process_file demo_env [''_tool.py''] ''_tool.py'' (Inr 10) (Inr ok_module)
            (init_state [])) = Ok
   \<and> tools (snd (process_file demo_env [''_tool.py''] ''_tool.py'' (Inr 10) (Inr ok_module)
            (init_state []))) = Map.empty"
proof -
  have h1: "py_startswith (path_stem ''_tool.py'') (prefix demo_env)"
    by (simp add: demo_env_def py_startswith_def)
  have h2: "py_endswith (path_stem ''_tool.py'') (suffix demo_env)"
    by (simp add: demo_env_def py_endswith_def path_stem_def rfind_dot_def)
  have h3: "module_name_of demo_env (path_stem ''_tool.py'') = []"
    by (simp add: demo_env_def module_name_of_def path_stem_def rfind_dot_def)
  show ?thesis
    using h1 h2 h3
      empty_middle_rejected [OF h1 h2 h3, of "[''_tool.py'']" "Inr 10" "Inr ok_module"
        "init_state []"]
    by (simp add: init_state_def)
qed

subsection \<open>The size guard\<close>

lemma process_file_oversize:
  assumes "MAX_TOOL_FILE_SIZE_BYTES < size'"
  shows "fst (process_file env p name (Inr size') exec st) = Ok
         \<and> loaded (snd (process_file env p name (Inr size') exec st)) = loaded st
         \<and> tools (snd (process_file env p name (Inr size') exec st)) = tools st"
  using assms by (simp add: process_file_def Let_def)

definition loaded_within_limit :: "scan_state \<Rightarrow> bool" where
  "loaded_within_limit st = list_all (\<lambda>(q, sz). sz \<le> MAX_TOOL_FILE_SIZE_BYTES) (loaded st)"

lemma loaded_within_limit_scan:
  "loaded_within_limit (snd (find_tools_json fs base_dir vs' md' pre' suf' pr' va' us))"
proof (rule find_tools_json_preserves)
  fix env p name stat exec st
  assume "loaded_within_limit st"
  with process_file_loaded [of env p name stat exec st]
  show "loaded_within_limit (snd (process_file env p name stat exec st))"
    by (auto simp: loaded_within_limit_def)
qed (simp_all add: loaded_within_limit_def init_state_def)

text \<open>
  C9. A candidate whose size is above \<open>MAX_TOOL_FILE_SIZE_BYTES\<close> (1 MiB) is skipped
  before the loading step, whatever the policy: the loop body goes on, and neither the
  list of executed files nor the registry changes. Over a whole scan, every file
  executed had a size within the limit.
\<close>

theorem oversize_never_loaded:
  "(MAX_TOOL_FILE_SIZE_BYTES < size' \<longrightarrow>
      fst (process_file env p name (Inr size') exec st) = Ok
      \<and> loaded (snd (process_file env p name (Inr size') exec st)) = loaded st
      \<and> tools (snd (process_file env p name (Inr size') exec st)) = tools st)
   \<and> (\<forall>(q, sz) \<in> set (loaded (snd (find_tools_json fs base_dir vs' md' pre' suf' pr' va' us))).
        sz \<le> MAX_TOOL_FILE_SIZE_BYTES)"
  using process_file_oversize [of size' env p name exec st]
    loaded_within_limit_scan [of fs base_dir vs' md' pre' suf' pr' va' us]
  by (simp add: loaded_within_limit_def list_all_iff)

theorem oversize_never_loaded_witness:
  "MAX_TOOL_FILE_SIZE_BYTES < 2000000
   \<and> fst (process_file demo_env [''big_tool.py''] ''big_tool.py'' (Inr 2000000) (Inr ok_module)
            (init_state [])) = Ok
   \<and> loaded (snd (process_file demo_env [''big_tool.py''] ''big_tool.py'' (Inr 2000000)
            (Inr ok_module) (init_state []))) = []
   \<and> loaded (snd (demo_scan False 0)) = [([''a_tool.py''], 10)]"
proof -
  have h: "MAX_TOOL_FILE_SIZE_BYTES < 2000000"
    by (simp add: MAX_TOOL_FILE_SIZE_BYTES_def)
  show ?thesis
    using h oversize_never_loaded [of 2000000 demo_env "[''big_tool.py'']" "''big_tool.py''"
        "Inr ok_module" "init_state []"]
      demo_scan_depth0(4)
    by (simp add: init_state_def)
qed

subsection \<open>The shape of the registry\<close>

definition registry_ok :: "registry \<Rightarrow> bool" where
  "registry_ok r =
     (\<forall>n e. r n = Some e \<longrightarrow> n \<noteq> [] \<and> (\<exists>d. description e = Val (PStr d)) \<and> callable (runner e))"

lemma load_candidate_tools:
  "tools (snd (load_candidate env p name sz exec st)) = tools st
   \<or> (\<exists>m r d s' us'. exec = Inr m
        \<and> extract_fields env m (snk st) (draws st) = Some (Inr (r, d), s', us')
        \<and> tools (snd (load_candidate env p name sz exec st))
            = (tools st)(module_name_of env (path_stem name) \<mapsto>
                 \<lparr>description = Val (PStr d), runner = r\<rparr>))"
  by (auto simp: load_candidate_def Let_def split: sum.splits option.splits prod.splits)

lemma load_candidate_registry_ok:
  assumes "registry_ok (tools st)" and "module_name_of env (path_stem name) \<noteq> []"
  shows "registry_ok (tools (snd (load_candidate env p name sz exec st)))"
proof -
  let ?mn = "module_name_of env (path_stem name)"
  from load_candidate_tools [of env p name sz exec st]
  consider (same) "tools (snd (load_candidate env p name sz exec st)) = tools st"
    | (added) m r d s' us' where "exec = Inr m"
        "extract_fields env m (snk st) (draws st) = Some (Inr (r, d), s', us')"
        "tools (snd (load_candidate env p name sz exec st))
           = (tools st)(?mn \<mapsto> \<lparr>description = Val (PStr d), runner = r\<rparr>)"
    by blast
  then show ?thesis
  proof cases
    case same
    with assms(1) show ?thesis by simp
  next
    case added
    from extract_fields_Inr [OF added(2)] have c: "callable r" by blast
    show ?thesis
      unfolding registry_ok_def added(3)
    proof (intro allI impI)
      fix n e
      assume ne: "((tools st)(?mn \<mapsto> \<lparr>description = Val (PStr d), runner = r\<rparr>)) n = Some e"
      show "n \<noteq> [] \<and> (\<exists>d. description e = Val (PStr d)) \<and> callable (runner e)"
      proof (cases "n = ?mn")
        case True
        with ne have "e = \<lparr>description = Val (PStr d), runner = r\<rparr>" by simp
        with True assms(2) c show ?thesis by simp
      next
        case False
        with ne have "tools st n = Some e" by simp
        with assms(1) show ?thesis by (simp add: registry_ok_def)
      qed
    qed
  qed
qed

lemma process_file_registry_ok:
  assumes "registry_ok (tools st)"
  shows "registry_ok (tools (snd (process_file env p name stat exec st)))"
proof (cases "length (path_stem name) \<le> length (prefix env) + length (suffix env)")
  case True
  with assms show ?thesis by (simp add: process_file_def Let_def)
next
  case False
  then have ne: "module_name_of env (path_stem name) \<noteq> []"
    by (simp add: module_name_empty_iff)
  have "registry_ok (tools (snd (load_candidate env p name sz exec
          (st\<lparr>files_seen := files_seen st @ [p]\<rparr>))))" for sz
    by (rule load_candidate_registry_ok [OF _ ne]) (simp add: assms)
  with assms show ?thesis
    by (auto simp: process_file_def Let_def split: sum.splits)
qed

lemma extract_fields_rejects:
  assumes "\<not> callable (getattr (tool_run m))
           \<or> (\<forall>d. getattr (TOOL_DEFINITION m) \<noteq> Val (PStr d))"
  shows "tools (snd (load_candidate env p name sz (Inr m) st)) = tools st"
  using load_candidate_tools [of env p name sz "Inr m" st] assms
  by (auto dest: extract_fields_Inr)

text \<open>
  C10. The registry that a scan ends with (the one returned, when the scan returns)
  has only non-empty names as keys, and every entry holds a string under
  \<open>description\<close> and a callable under \<open>runner\<close>. A module whose \<^verbatim>\<open>tool_run\<close> is not
  callable or whose \<^verbatim>\<open>TOOL_DEFINITION\<close> is not a string adds nothing to the registry.
\<close>

theorem registry_invariant:
  "registry_ok (tools (snd (find_tools_json fs base_dir vs' md' pre' suf' pr' va' us)))
   \<and> (\<not> callable (getattr (tool_run m)) \<or> (\<forall>d. getattr (TOOL_DEFINITION m) \<noteq> Val (PStr d))
        \<longrightarrow> tools (snd (load_candidate env p name sz (Inr m) st)) = tools st)"
proof -
  have "registry_ok (tools (snd (find_tools_json fs base_dir vs' md' pre' suf' pr' va' us)))"
    by (rule find_tools_json_preserves [where P = "\<lambda>st. registry_ok (tools st)"])
       (simp_all add: process_file_registry_ok, simp add: registry_ok_def init_state_def)
  with extract_fields_rejects [of m env p name sz st] show ?thesis by blast
qed

theorem registry_invariant_witness:
  "registry_ok (tools (snd (demo_scan False 0)))
   \<and> tools (snd (demo_scan False 0)) ''a''
       = Some \<lparr>description = Val (PStr ''{}''), runner = Callable (\<lambda>a. Inr PNone)\<rparr>
   \<and> \<not> callable (getattr (tool_run
            \<lparr>tool_run = None, TOOL_DEFINITION = Some (Val (PStr ''{}''))\<rparr>))
   \<and> tools (snd (load_candidate demo_env [''b_tool.py''] ''b_tool.py'' 10
        (Inr \<lparr>tool_run = None, TOOL_DEFINITION = Some (Val (PStr ''{}''))\<rparr>) (init_state [])))
       = Map.empty"
proof -
  have h: "\<not> callable (getattr (tool_run
             \<lparr>tool_run = None, TOOL_DEFINITION = Some (Val (PStr ''{}''))\<rparr>))"
    by (simp add: getattr_def)
  show ?thesis
    using h demo_scan_depth0(3)
      registry_invariant [of "\<lambda>b. Inr (Some demo_tree)" "PStr ''tools''"
        "\<lparr>verbose_level = LOW, no_throw = False\<rparr>" "PInt 0" PNone "PStr ''_tool''"
        "PBool False" "PBool False" "[]"
        "\<lparr>tool_run = None, TOOL_DEFINITION = Some (Val (PStr ''{}''))\<rparr>"
        demo_env "[''b_tool.py'']" "''b_tool.py''" 10 "init_state []"]
    by (simp add: demo_scan_def init_state_def)
qed

subsection \<open>The depth bound\<close>

definition depth_ok :: "int \<Rightarrow> scan_state \<Rightarrow> bool" where
  "depth_ok md st =
     (list_all (\<lambda>p. int (length p) \<le> md) (dirs_visited st)
      \<and> list_all (\<lambda>p. int (length p) \<le> md + 1) (files_seen st)
      \<and> list_all (\<lambda>(p, sz). int (length p) \<le> md + 1) (loaded st))"

lemma depth_ok_say [simp]: "depth_ok md (say lvl msg env st) = depth_ok md st"
  by (simp add: depth_ok_def)

lemma depth_ok_process_file:
  assumes "depth_ok md st" and "int (length p) \<le> md + 1"
  shows "depth_ok md (snd (process_file env p name stat exec st))"
  using assms process_file_loaded [of env p name stat exec st]
  by (auto simp: depth_ok_def process_file_seen)

lemma depth_ok_visit:
  assumes "depth_ok (max_depth env) st" and "length p = depth" and "int depth \<le> max_depth env"
    and v: "visit_dir env (d, p, depth) st = (r, pushed, st')"
  shows "depth_ok (max_depth env) st'
         \<and> (\<forall>i\<in>set pushed. length (fst (snd i)) = snd (snd i) \<and> int (snd (snd i)) \<le> max_depth env)"
proof -
  have "depth_ok (max_depth env) (snd (snd (visit_dir env (d, p, depth) st)))"
  proof (rule visit_dir_preserves [of "depth_ok (max_depth env)"])
    fix name stat exec st
    assume "depth_ok (max_depth env) st"
    then show "depth_ok (max_depth env) (snd (process_file env (p @ [name]) name stat exec st))"
      using assms(2,3) by (intro depth_ok_process_file) simp_all
  next
    fix st
    assume "depth_ok (max_depth env) st"
    then show "depth_ok (max_depth env) (st\<lparr>dirs_visited := dirs_visited st @ [p]\<rparr>)"
      using assms(2,3) by (simp add: depth_ok_def)
  qed (simp_all add: assms(1))
  with v have a: "depth_ok (max_depth env) st'" by simp
  have b: "length (fst (snd i)) = snd (snd i) \<and> int (snd (snd i)) \<le> max_depth env"
    if "i \<in> set pushed" for i
    using visit_dir_pushed_items [OF v that] assms(2) by auto
  from a b show ?thesis by blast
qed

lemma depth_ok_scan_loop:
  assumes "depth_ok (max_depth env) st"
    and "\<forall>i\<in>set stack. length (fst (snd i)) = snd (snd i) \<and> int (snd (snd i)) \<le> max_depth env"
  shows "depth_ok (max_depth env) (snd (scan_loop env stack st))"
proof (rule scan_loop_invariant
    [where Q = "\<lambda>i. length (fst (snd i)) = snd (snd i) \<and> int (snd (snd i)) \<le> max_depth env"
       and P = "depth_ok (max_depth env)"])
  fix item :: stack_item and st r pushed st'
  assume q: "length (fst (snd item)) = snd (snd item) \<and> int (snd (snd item)) \<le> max_depth env"
    and p: "depth_ok (max_depth env) st" and v: "visit_dir env item st = (r, pushed, st')"
  obtain d pa depth where item: "item = (d, pa, depth)" by (metis prod_cases3)
  from depth_ok_visit [of env st pa depth d r pushed st'] q p v item
  show "depth_ok (max_depth env) st'
        \<and> (\<forall>i\<in>set pushed. length (fst (snd i)) = snd (snd i) \<and> int (snd (snd i)) \<le> max_depth env)"
    by simp
qed (use assms in simp_all)

lemma depth_ok_find_tools_json:
  assumes "as_int md' = Some md"
  shows "depth_ok md (snd (find_tools_json fs base_dir vs' md' pre' suf' pr' va' us))"
proof -
  have init: "depth_ok m (init_state us)" for m
    by (simp add: depth_ok_def init_state_def)
  from find_tools_json_cases [of fs base_dir vs' md' pre' suf' pr' va' us]
  consider (simple) "snd (find_tools_json fs base_dir vs' md' pre' suf' pr' va' us) = init_state us"
    | (scanned) base env name l e entries where
        "find_tools_json fs base_dir vs' md' pre' suf' pr' va' us
           = scan_from env (Dir name l e entries) us"
        "check_args base_dir vs' md' pre' suf' pr' va' = Inr (base, env)"
    by auto
  then show ?thesis
  proof cases
    case simple
    with init show ?thesis by simp
  next
    case scanned
    from check_args_env [OF scanned(2)] assms have md: "max_depth env = md" "0 \<le> md" by auto
    have "depth_ok (max_depth env)
            (snd (scan_loop env [(Dir name l e entries, [], 0)] (init_state us)))"
      by (rule depth_ok_scan_loop) (use md init in simp_all)
    with scanned(1) md show ?thesis by (simp add: scan_from_snd)
  qed
qed

lemma process_entry_pushes_below_max:
  assumes "process_entry env p depth entry (pushed, st) = (r, pushed', st')" and "pushed' \<noteq> pushed"
  shows "int depth < max_depth env"
  using assms by (cases entry) (auto split: if_splits prod.splits)

text \<open>
  C6. With \<open>max_depth = 0\<close> the only directory listed is the base directory (the
  empty path), and every file seen or executed is an entry of the base directory itself
  (a path of one name); a file in a subdirectory, at whatever depth, has a longer path
  and is never visited. The loop pushes a directory only when the depth of the
  directory being read is strictly below \<open>max_depth\<close>.
\<close>

theorem max_depth_zero_base_only:
  "set (dirs_visited (snd (find_tools_json fs base_dir vs' (PInt 0) pre' suf' pr' va' us))) \<subseteq> {[]}
   \<and> (\<forall>q \<in> set (files_seen (snd (find_tools_json fs base_dir vs' (PInt 0) pre' suf' pr' va' us))).
        length q \<le> 1)
   \<and> (\<forall>(q, sz) \<in> set (loaded (snd (find_tools_json fs base_dir vs' (PInt 0) pre' suf' pr' va' us))).
        length q \<le> 1)
   \<and> (process_entry env p depth entry (pushed, st) = (r, pushed', st') \<and> pushed' \<noteq> pushed
        \<longrightarrow> int depth < max_depth env)"
  using depth_ok_find_tools_json [of "PInt 0" 0 fs base_dir vs' pre' suf' pr' va' us]
    process_entry_pushes_below_max [of env p depth entry pushed st r pushed' st']
  by (auto simp: depth_ok_def list_all_iff)

theorem max_depth_zero_base_only_witness:
  "dirs_visited (snd (demo_scan False 0)) = [[]]
   \<and> [''sub'', ''b_tool.py''] \<notin> set (files_seen (snd (demo_scan False 0)))
   \<and> [''sub'', ''b_tool.py''] \<notin> fst ` set (loaded (snd (demo_scan False 0)))
   \<and> process_entry demo_env [] 0 (Dir ''sub'' False None []) ([], init_state [])
       = (Ok, [], say HIGH (MaxDepthReached [''sub'']) demo_env (init_state []))"
  using max_depth_zero_base_only [of "\<lambda>b. Inr (Some demo_tree)" "PStr ''tools''"
      "\<lparr>verbose_level = LOW, no_throw = False\<rparr>" PNone "PStr ''_tool''" "PBool False"
      "PBool False" "[]" demo_env "[]" 0 "Dir ''sub'' False None []" "[]" "init_state []"
      Ok "[]" "say HIGH (MaxDepthReached [''sub'']) demo_env (init_state [])"]
    demo_scan_depth0
  by (simp add: demo_scan_def demo_env_def)

subsection \<open>Collisions\<close>

text \<open>
  C8. When a file is accepted and its tool name is already a key of the registry, the
  new entry replaces the earlier one, the warning \<open>Overwriting\<close> is handed to the
  diagnostics channel at level \<open>LOW\<close> (and written unless the verbosity is \<open>NONE\<close>),
  and the loop goes on: no failure, whatever the policy.
\<close>

theorem collision_overwrites:
  assumes "path_suffix name = ''.py''"
    and "py_startswith (path_stem name) (prefix env)"
    and "py_endswith (path_stem name) (suffix env)"
    and "length (prefix env) + length (suffix env) < length (path_stem name)"
    and "size' \<le> MAX_TOOL_FILE_SIZE_BYTES"
    and "extract_fields env m (snk st) (draws st) = Some (Inr (r, d), s', us')"
    and "tools st (module_name_of env (path_stem name)) = Some earlier"
  shows "fst (process_file env p name (Inr size') (Inr m) st) = Ok
         \<and> tools (snd (process_file env p name (Inr size') (Inr m) st))
             = (tools st)(module_name_of env (path_stem name) \<mapsto>
                  \<lparr>description = Val (PStr d), runner = r\<rparr>)
         \<and> (LOW, Overwriting (module_name_of env (path_stem name)))
             \<in> set (issued (snk (snd (process_file env p name (Inr size') (Inr m) st))))
         \<and> (verbose_level (vs env) \<noteq> NONE \<longrightarrow>
              Overwriting (module_name_of env (path_stem name))
                \<in> set (written (snk (snd (process_file env p name (Inr size') (Inr m) st)))))"
  using assms
  by (cases "verbose_level (vs env)")
     (simp_all add: process_file_def load_candidate_def accept_tool_def say_def print_verbose_def
        includes_level_def Let_def domI)

definition other_module :: py_module where
  "other_module =
     \<lparr>tool_run = Some (Callable (\<lambda>a. Inr (PInt 2))), TOOL_DEFINITION = Some (Val (PStr ''[]''))\<rparr>"

definition twin_tree :: node where
  "twin_tree =
     Dir ''tools'' False None
       [File ''a_tool.py'' (Inr 10) (Inr ok_module),
        Dir ''sub'' False None [File ''a_tool.py'' (Inr 20) (Inr other_module)]]"

definition twin_scan :: "bool \<Rightarrow> status \<times> scan_state" where
  "twin_scan nt =
     find_tools_json (\<lambda>b. Inr (Some twin_tree)) (PStr ''tools'')
       \<lparr>verbose_level = LOW, no_throw = nt\<rparr> (PInt 1) PNone (PStr ''_tool'')
       (PBool False) (PBool False) []"

definition after_first :: scan_state where
  "after_first =
     snd (process_file demo_env [''a_tool.py''] ''a_tool.py'' (Inr 10) (Inr ok_module)
            (init_state []))"

lemma twin_scan_result:
  "fst (twin_scan nt) = Ok"
  "tools (snd (twin_scan nt)) ''a''
     = Some \<lparr>description = Val (PStr ''[]''), runner = Callable (\<lambda>a. Inr (PInt 2))\<rparr>"
  "written (snk (snd (twin_scan nt))) = [Overwriting ''a'', ScanFinished]"
  by (simp_all add: twin_scan_def twin_tree_def ok_module_def other_module_def scan_simps)

theorem collision_overwrites_witness:
  "tools after_first ''a''
     = Some \<lparr>description = Val (PStr ''{}''), runner = Callable (\<lambda>a. Inr PNone)\<rparr>
   \<and> fst (process_file demo_env [''sub'', ''a_tool.py''] ''a_tool.py'' (Inr 20) (Inr other_module)
            after_first) = Ok
   \<and> tools (snd (process_file demo_env [''sub'', ''a_tool.py''] ''a_tool.py'' (Inr 20)
        (Inr other_module) after_first)) ''a''
       = Some \<lparr>description = Val (PStr ''[]''), runner = Callable (\<lambda>a. Inr (PInt 2))\<rparr>
   \<and> (LOW, Overwriting ''a'')
       \<in> set (issued (snk (snd (process_file demo_env [''sub'', ''a_tool.py''] ''a_tool.py''
             (Inr 20) (Inr other_module) after_first))))
   \<and> fst (twin_scan False) = Ok \<and> fst (twin_scan True) = Ok
   \<and> tools (snd (twin_scan False)) ''a''
       = Some \<lparr>description = Val (PStr ''[]''), runner = Callable (\<lambda>a. Inr (PInt 2))\<rparr>"
proof -
  have h1: "path_suffix ''a_tool.py'' = ''.py''"
    by (simp add: path_suffix_def rfind_dot_def)
  have stem: "path_stem ''a_tool.py'' = ''a_tool''"
    by (simp add: path_stem_def rfind_dot_def)
  have h2: "py_startswith (path_stem ''a_tool.py'') (prefix demo_env)"
    by (simp add: demo_env_def py_startswith_def)
  have h3: "py_endswith (path_stem ''a_tool.py'') (suffix demo_env)"
    by (simp add: demo_env_def py_endswith_def stem)
  have h4: "length (prefix demo_env) + length (suffix demo_env) < length (path_stem ''a_tool.py'')"
    by (simp add: demo_env_def stem)
  have h5: "(20::nat) \<le> MAX_TOOL_FILE_SIZE_BYTES"
    by (simp add: MAX_TOOL_FILE_SIZE_BYTES_def)
  have mn: "module_name_of demo_env (path_stem ''a_tool.py'') = ''a''"
    by (simp add: demo_env_def module_name_of_def stem)
  have first: "tools after_first ''a''
     = Some \<lparr>description = Val (PStr ''{}''), runner = Callable (\<lambda>a. Inr PNone)\<rparr>"
    by (simp add: after_first_def demo_env_def ok_module_def scan_simps)
  have h6: "extract_fields demo_env other_module (snk after_first) (draws after_first)
              = Some (Inr (Callable (\<lambda>a. Inr (PInt 2)), ''[]''), snk after_first, draws after_first)"
    by (simp add: extract_fields_def demo_env_def other_module_def getattr_def)
  have h7: "tools after_first (module_name_of demo_env (path_stem ''a_tool.py''))
              = Some \<lparr>description = Val (PStr ''{}''), runner = Callable (\<lambda>a. Inr PNone)\<rparr>"
    using first mn by simp
  show ?thesis
    using collision_overwrites [OF h1 h2 h3 h4 h5 h6 h7, of "[''sub'', ''a_tool.py'']"]
      first mn twin_scan_result(1,2)
    by simp
qed

subsection \<open>Failures of single files\<close>

lemma json_loads_error: "json_loads s = Inl ex \<Longrightarrow> ex = decode_error"
  by (auto simp: json_loads_def split: option.splits prod.splits if_splits)

lemma caught_decode_error [simp]: "caught decode_error"
  by (simp add: caught_def decode_error_def)

lemma is_valid_json_caught: "is_valid_json s nt = Inl ex \<Longrightarrow> caught ex"
  by (auto simp: is_valid_json_def split: sum.splits if_splits dest: json_loads_error)

lemma prettify_json_caught: "prettify_json s vs' sk us = Some (Inl ex, sk', us') \<Longrightarrow> caught ex"
  by (auto simp: prettify_json_def return_or_raise_def caught_def
      split: sum.splits option.splits prod.splits if_splits dest: is_valid_json_caught)

lemma extract_fields_caught:
  assumes "extract_fields env m s us = Some (Inl ex, s', us')"
  shows "caught ex"
proof (cases "callable (getattr (tool_run m))")
  case False
  with assms show ?thesis by (auto simp: extract_fields_def Let_def caught_def)
next
  case True
  show ?thesis
  proof (cases "\<exists>d. getattr (TOOL_DEFINITION m) = Val (PStr d)")
    case False
    with assms True show ?thesis
      by (cases "getattr (TOOL_DEFINITION m)")
         (auto simp: extract_fields_def Let_def caught_def split: pyval.splits)
  next
    case d: True
    then obtain d where "getattr (TOOL_DEFINITION m) = Val (PStr d)" by blast
    with assms True show ?thesis
      by (auto simp: extract_fields_def Let_def caught_def
          split: sum.splits option.splits prod.splits if_splits
          dest: is_valid_json_caught prettify_json_caught)
  qed
qed

lemma give_up_fst: "fst (give_up vs' ex us) = (if no_throw vs' then Ok else Raised ex)"
  by (simp add: give_up_def return_or_raise_def)

lemma say_issued: "issued (snk (say lvl msg env st)) = issued (snk st) @ [(lvl, msg)]"
  by (simp add: say_def print_verbose_def Let_def)

lemma say_written_low:
  "verbose_level (vs env) \<noteq> NONE
     \<Longrightarrow> written (snk (say LOW msg env st)) = written (snk st) @ [msg]"
  by (cases "verbose_level (vs env)")
     (simp_all add: say_def print_verbose_def includes_level_def Let_def)

text \<open>A candidate: a file that passes the name filter, so that the scan goes on to its size.\<close>

definition candidate :: "scan_env \<Rightarrow> string \<Rightarrow> bool" where
  "candidate env name =
     (path_suffix name = ''.py''
      \<and> py_startswith (path_stem name) (prefix env)
      \<and> py_endswith (path_stem name) (suffix env)
      \<and> length (prefix env) + length (suffix env) < length (path_stem name))"

lemma oversize_skipped:
  assumes "candidate env name" and "MAX_TOOL_FILE_SIZE_BYTES < big"
  shows "fst (process_file env p name (Inr big) exec st) = Ok"
    and "tools (snd (process_file env p name (Inr big) exec st)) = tools st"
    and "loaded (snd (process_file env p name (Inr big) exec st)) = loaded st"
    and "issued (snk (snd (process_file env p name (Inr big) exec st)))
           = issued (snk st) @ [(LOW, SkippingTooBig name big)]"
  using assms by (simp_all add: candidate_def process_file_def Let_def say_issued)

lemma import_failure:
  assumes "candidate env name" and "size' \<le> MAX_TOOL_FILE_SIZE_BYTES" and "caught ex"
  shows "fst (process_file env p name (Inr size') (Inl ex) st)
           = (if no_throw (vs env) then Ok else Raised ex)"
    and "tools (snd (process_file env p name (Inr size') (Inl ex) st)) = tools st"
    and "issued (snk (snd (process_file env p name (Inr size') (Inl ex) st)))
           = issued (snk st) @ [(LOW, ImportFailed name ex)]"
    and "verbose_level (vs env) \<noteq> NONE \<longrightarrow>
           written (snk (snd (process_file env p name (Inr size') (Inl ex) st)))
             = written (snk st) @ [ImportFailed name ex]"
  using assms
  by (simp_all add: candidate_def process_file_def load_candidate_def handle_or_skip_def Let_def
      say_issued say_written_low)

lemma import_escapes:
  assumes "candidate env name" and "size' \<le> MAX_TOOL_FILE_SIZE_BYTES" and "\<not> caught ex"
  shows "fst (process_file env p name (Inr size') (Inl ex) st) = Raised ex"
    and "tools (snd (process_file env p name (Inr size') (Inl ex) st)) = tools st"
  using assms
  by (simp_all add: candidate_def process_file_def load_candidate_def handle_or_skip_def Let_def)

lemma extraction_failure:
  assumes "candidate env name" and "size' \<le> MAX_TOOL_FILE_SIZE_BYTES"
    and "extract_fields env m (snk st) (draws st) = Some (Inl ex, s', us')"
  shows "fst (process_file env p name (Inr size') (Inr m) st)
           = (if no_throw (vs env) then Ok else Raised ex)"
    and "tools (snd (process_file env p name (Inr size') (Inr m) st)) = tools st"
    and "issued (snk (snd (process_file env p name (Inr size') (Inr m) st)))
           = issued s' @ [(LOW, SkippingFile name ex)]"
    and "verbose_level (vs env) \<noteq> NONE \<longrightarrow>
           written (snk (snd (process_file env p name (Inr size') (Inr m) st)))
             = written s' @ [SkippingFile name ex]"
  using assms extract_fields_caught [OF assms(3)]
  by (simp_all add: candidate_def process_file_def load_candidate_def handle_or_skip_def Let_def
      say_issued say_written_low)

lemma extraction_fails_without_runner:
  assumes "\<not> callable (getattr (tool_run m))"
  shows "extract_fields env m s us
           = Some (Inl (Exn AttributeError ''Missing or non-callable `tool_run`''), s, us)"
  using assms by (simp add: extract_fields_def Let_def)

lemma extraction_fails_on_other_description:
  assumes "callable (getattr (tool_run m))" and "getattr (TOOL_DEFINITION m) = Val v"
    and "\<forall>d. v \<noteq> PStr d"
  shows "extract_fields env m s us
           = Some (Inl (Exn TypeError ''`TOOL_DEFINITION` must be a JSON string (type str)''),
                   s, us)"
  using assms by (cases v) (simp_all add: extract_fields_def Let_def)

lemma extraction_fails_on_invalid_json:
  assumes "callable (getattr (tool_run m))" and "getattr (TOOL_DEFINITION m) = Val (PStr d)"
    and "validate env \<or> prettify env" and "json_loads d = Inl e"
  shows "extract_fields env m s us
           = Some (Inl (if no_throw (vs env)
                        then Exn ValueError
                               (''Exception ('' @ class_name (exn_class e) @ ''): '' @ exn_msg e)
                        else e),
                   s, us)"
  using assms by (auto simp: extract_fields_def Let_def is_valid_json_def)

lemma entries_continue:
  assumes "fst (process_file env (p @ [name]) name stat exec st) = Ok"
  shows "process_entries env p depth (File name stat exec # entries) (pushed, st)
           = process_entries env p depth entries
               (pushed, snd (process_file env (p @ [name]) name stat exec st))"
  using assms by (cases "process_file env (p @ [name]) name stat exec st") simp

lemma entries_stop:
  assumes "fst (process_file env (p @ [name]) name stat exec st) = Raised x"
  shows "process_entries env p depth (File name stat exec # entries) (pushed, st)
           = (Raised x, pushed, snd (process_file env (p @ [name]) name stat exec st))"
  using assms by (cases "process_file env (p @ [name]) name stat exec st") simp

lemma visit_stops:
  assumes "iterdir current_dir = Inr entries"
    and "process_entries env p depth entries
           ([], say HIGH (Traversing p depth) env (st\<lparr>dirs_visited := dirs_visited st @ [p]\<rparr>))
         = (Raised x, pushed, st')"
  shows "scan_loop env ((current_dir, p, depth) # stack) st = (Raised x, st')"
  using assms by (simp add: visit_dir_def Let_def)

lemma scan_stops:
  assumes "check_args base_dir vs' md' pre' suf' pr' va' = Inr (base, env)"
    and "fs base = Inr (Some (Dir dname l e entries))"
    and "scan_loop env [(Dir dname l e entries, [], 0)] (init_state us) = (Raised x, st')"
  shows "find_tools_json fs base_dir vs' md' pre' suf' pr' va' us = (Raised x, st')"
  using assms by (simp add: find_tools_json_def scan_from_def)

lemma precondition_failure:
  assumes "check_args base_dir vs' md' pre' suf' pr' va' = Inl x"
  shows "fst (find_tools_json fs base_dir vs' md' pre' suf' pr' va' us)
           = (if no_throw vs' then Ok else Raised x)"
  using assms by (simp add: find_tools_json_def give_up_fst)

text \<open>
  C2, as the code has it. An oversize candidate is logged and skipped under both
  policies. A load failure, a missing or invalid field and an invalid descriptor JSON
  (with an exception derived from \<^verbatim>\<open>Exception\<close>) are logged at level \<open>LOW\<close>; the file is
  then skipped, and the loop goes on to the next entry, only when \<open>no_throw\<close> is on;
  when it is off the handler re-raises the exception, the remaining entries and the
  rest of the stack are left, and the scan ends with that exception, as it does for a
  failing check of the arguments. A load failure with an exception outside
  \<^verbatim>\<open>Exception\<close> leaves the scan under both policies. In each case the failing file
  leaves the registry as it was.
\<close>

theorem per_file_failure_policy:
  "(candidate env name \<and> MAX_TOOL_FILE_SIZE_BYTES < big \<longrightarrow>
        fst (process_file env p name (Inr big) exec st) = Ok
        \<and> tools (snd (process_file env p name (Inr big) exec st)) = tools st
        \<and> loaded (snd (process_file env p name (Inr big) exec st)) = loaded st
        \<and> issued (snk (snd (process_file env p name (Inr big) exec st)))
            = issued (snk st) @ [(LOW, SkippingTooBig name big)])
   \<and> (candidate env name \<and> size' \<le> MAX_TOOL_FILE_SIZE_BYTES \<and> caught ex \<longrightarrow>
        fst (process_file env p name (Inr size') (Inl ex) st)
          = (if no_throw (vs env) then Ok else Raised ex)
        \<and> tools (snd (process_file env p name (Inr size') (Inl ex) st)) = tools st
        \<and> issued (snk (snd (process_file env p name (Inr size') (Inl ex) st)))
            = issued (snk st) @ [(LOW, ImportFailed name ex)]
        \<and> (verbose_level (vs env) \<noteq> NONE \<longrightarrow>
             written (snk (snd (process_file env p name (Inr size') (Inl ex) st)))
               = written (snk st) @ [ImportFailed name ex]))
   \<and> (candidate env name \<and> size' \<le> MAX_TOOL_FILE_SIZE_BYTES \<and> \<not> caught ex \<longrightarrow>
        fst (process_file env p name (Inr size') (Inl ex) st) = Raised ex
        \<and> tools (snd (process_file env p name (Inr size') (Inl ex) st)) = tools st)
   \<and> (candidate env name \<and> size' \<le> MAX_TOOL_FILE_SIZE_BYTES
        \<and> extract_fields env m (snk st) (draws st) = Some (Inl ex', s', us') \<longrightarrow>
        fst (process_file env p name (Inr size') (Inr m) st)
          = (if no_throw (vs env) then Ok else Raised ex')
        \<and> tools (snd (process_file env p name (Inr size') (Inr m) st)) = tools st
        \<and> issued (snk (snd (process_file env p name (Inr size') (Inr m) st)))
            = issued s' @ [(LOW, SkippingFile name ex')]
        \<and> (verbose_level (vs env) \<noteq> NONE \<longrightarrow>
             written (snk (snd (process_file env p name (Inr size') (Inr m) st)))
               = written s' @ [SkippingFile name ex']))
   \<and> (\<not> callable (getattr (tool_run m)) \<longrightarrow>
        extract_fields env m s us
          = Some (Inl (Exn AttributeError ''Missing or non-callable `tool_run`''), s, us))
   \<and> (callable (getattr (tool_run m)) \<and> getattr (TOOL_DEFINITION m) = Val v
        \<and> (\<forall>d. v \<noteq> PStr d) \<longrightarrow>
        extract_fields env m s us
          = Some (Inl (Exn TypeError ''`TOOL_DEFINITION` must be a JSON string (type str)''),
                  s, us))
   \<and> (callable (getattr (tool_run m)) \<and> getattr (TOOL_DEFINITION m) = Val (PStr d)
        \<and> (validate env \<or> prettify env) \<and> json_loads d = Inl e \<longrightarrow>
        extract_fields env m s us
          = Some (Inl (if no_throw (vs env)
                       then Exn ValueError
                              (''Exception ('' @ class_name (exn_class e) @ ''): '' @ exn_msg e)
                       else e),
                  s, us))
   \<and> (fst (process_file env (q @ [name]) name fstat fexec st) = Ok \<longrightarrow>
        process_entries env q depth (File name fstat fexec # rest) (pushed, st)
          = process_entries env q depth rest
              (pushed, snd (process_file env (q @ [name]) name fstat fexec st)))
   \<and> (fst (process_file env (q @ [name]) name fstat fexec st) = Raised x \<longrightarrow>
        process_entries env q depth (File name fstat fexec # rest) (pushed, st)
          = (Raised x, pushed, snd (process_file env (q @ [name]) name fstat fexec st)))
   \<and> (iterdir current_dir = Inr entries
        \<and> process_entries env q depth entries
            ([], say HIGH (Traversing q depth) env (before\<lparr>dirs_visited := dirs_visited before @ [q]\<rparr>))
          = (Raised x, pushed', st') \<longrightarrow>
        scan_loop env ((current_dir, q, depth) # stack) before = (Raised x, st'))
   \<and> (check_args base_dir vs' md' pre' suf' pr' va' = Inr (base, env)
        \<and> fs base = Inr (Some (Dir dname l err entries))
        \<and> scan_loop env [(Dir dname l err entries, [], 0)] (init_state us) = (Raised x, st') \<longrightarrow>
        find_tools_json fs base_dir vs' md' pre' suf' pr' va' us = (Raised x, st'))
   \<and> (check_args base_dir vs' md' pre' suf' pr' va' = Inl x \<longrightarrow>
        fst (find_tools_json fs base_dir vs' md' pre' suf' pr' va' us)
          = (if no_throw vs' then Ok else Raised x))"
proof -
  have b: "candidate env name \<and> MAX_TOOL_FILE_SIZE_BYTES < big \<longrightarrow>
        fst (process_file env p name (Inr big) exec st) = Ok
        \<and> tools (snd (process_file env p name (Inr big) exec st)) = tools st
        \<and> loaded (snd (process_file env p name (Inr big) exec st)) = loaded st
        \<and> issued (snk (snd (process_file env p name (Inr big) exec st)))
            = issued (snk st) @ [(LOW, SkippingTooBig name big)]"
    using oversize_skipped [of env name big p exec st] by blast
  have c: "candidate env name \<and> size' \<le> MAX_TOOL_FILE_SIZE_BYTES \<and> caught ex \<longrightarrow>
        fst (process_file env p name (Inr size') (Inl ex) st)
          = (if no_throw (vs env) then Ok else Raised ex)
        \<and> tools (snd (process_file env p name (Inr size') (Inl ex) st)) = tools st
        \<and> issued (snk (snd (process_file env p name (Inr size') (Inl ex) st)))
            = issued (snk st) @ [(LOW, ImportFailed name ex)]
        \<and> (verbose_level (vs env) \<noteq> NONE \<longrightarrow>
             written (snk (snd (process_file env p name (Inr size') (Inl ex) st)))
               = written (snk st) @ [ImportFailed name ex])"
    using import_failure [of env name size' ex p st] by blast
  have c': "candidate env name \<and> size' \<le> MAX_TOOL_FILE_SIZE_BYTES \<and> \<not> caught ex \<longrightarrow>
        fst (process_file env p name (Inr size') (Inl ex) st) = Raised ex
        \<and> tools (snd (process_file env p name (Inr size') (Inl ex) st)) = tools st"
    using import_escapes [of env name size' ex p st] by blast
  have d: "candidate env name \<and> size' \<le> MAX_TOOL_FILE_SIZE_BYTES
        \<and> extract_fields env m (snk st) (draws st) = Some (Inl ex', s', us') \<longrightarrow>
        fst (process_file env p name (Inr size') (Inr m) st)
          = (if no_throw (vs env) then Ok else Raised ex')
        \<and> tools (snd (process_file env p name (Inr size') (Inr m) st)) = tools st
        \<and> issued (snk (snd (process_file env p name (Inr size') (Inr m) st)))
            = issued s' @ [(LOW, SkippingFile name ex')]
        \<and> (verbose_level (vs env) \<noteq> NONE \<longrightarrow>
             written (snk (snd (process_file env p name (Inr size') (Inr m) st)))
               = written s' @ [SkippingFile name ex'])"
    using extraction_failure [of env name size' m st ex' s' us' p] by blast
  have e1: "\<not> callable (getattr (tool_run m)) \<longrightarrow>
        extract_fields env m s us
          = Some (Inl (Exn AttributeError ''Missing or non-callable `tool_run`''), s, us)"
    using extraction_fails_without_runner [of m env s us] by blast
  have e2: "callable (getattr (tool_run m)) \<and> getattr (TOOL_DEFINITION m) = Val v
        \<and> (\<forall>d. v \<noteq> PStr d) \<longrightarrow>
        extract_fields env m s us
          = Some (Inl (Exn TypeError ''`TOOL_DEFINITION` must be a JSON string (type str)''),
                  s, us)"
    using extraction_fails_on_other_description [of m v env s us] by blast
  have e3: "callable (getattr (tool_run m)) \<and> getattr (TOOL_DEFINITION m) = Val (PStr d)
        \<and> (validate env \<or> prettify env) \<and> json_loads d = Inl e \<longrightarrow>
        extract_fields env m s us
          = Some (Inl (if no_throw (vs env)
                       then Exn ValueError
                              (''Exception ('' @ class_name (exn_class e) @ ''): '' @ exn_msg e)
                       else e),
                  s, us)"
    using extraction_fails_on_invalid_json [of m d env e s us] by blast
  have f1: "fst (process_file env (q @ [name]) name fstat fexec st) = Ok \<longrightarrow>
        process_entries env q depth (File name fstat fexec # rest) (pushed, st)
          = process_entries env q depth rest
              (pushed, snd (process_file env (q @ [name]) name fstat fexec st))"
    using entries_continue [of env q name fstat fexec st depth rest pushed] by blast
  have f2: "fst (process_file env (q @ [name]) name fstat fexec st) = Raised x \<longrightarrow>
        process_entries env q depth (File name fstat fexec # rest) (pushed, st)
          = (Raised x, pushed, snd (process_file env (q @ [name]) name fstat fexec st))"
    using entries_stop [of env q name fstat fexec st x depth rest pushed] by blast
  have g: "iterdir current_dir = Inr entries
        \<and> process_entries env q depth entries
            ([], say HIGH (Traversing q depth) env (before\<lparr>dirs_visited := dirs_visited before @ [q]\<rparr>))
          = (Raised x, pushed', st') \<longrightarrow>
        scan_loop env ((current_dir, q, depth) # stack) before = (Raised x, st')"
    using visit_stops [of current_dir entries env q depth before x pushed' st' stack] by blast
  have h: "check_args base_dir vs' md' pre' suf' pr' va' = Inr (base, env)
        \<and> fs base = Inr (Some (Dir dname l err entries))
        \<and> scan_loop env [(Dir dname l err entries, [], 0)] (init_state us) = (Raised x, st') \<longrightarrow>
        find_tools_json fs base_dir vs' md' pre' suf' pr' va' us = (Raised x, st')"
    using scan_stops [of base_dir vs' md' pre' suf' pr' va' base env fs dname l err entries us x st']
    by blast
  have i: "check_args base_dir vs' md' pre' suf' pr' va' = Inl x \<longrightarrow>
        fst (find_tools_json fs base_dir vs' md' pre' suf' pr' va' us)
          = (if no_throw vs' then Ok else Raised x)"
    using precondition_failure [of base_dir vs' md' pre' suf' pr' va' x fs us] by blast
  from b c c' d e1 e2 e3 f1 f2 g h i show ?thesis by (intro conjI)
qed

definition broken_tree :: node where
  "broken_tree =
     Dir ''tools'' False None
       [File ''a_tool.py'' (Inr 10) (Inl (Exn ImportError ''boom'')),
        File ''b_tool.py'' (Inr 10) (Inr ok_module)]"

definition broken_scan :: "bool \<Rightarrow> status \<times> scan_state" where
  "broken_scan nt =
     find_tools_json (\<lambda>b. Inr (Some broken_tree)) (PStr ''tools'')
       \<lparr>verbose_level = LOW, no_throw = nt\<rparr> (PInt 0) PNone (PStr ''_tool'')
       (PBool False) (PBool False) []"

definition lenient_env :: scan_env where
  "lenient_env =
     \<lparr>vs = \<lparr>verbose_level = LOW, no_throw = True\<rparr>, max_depth = 0, prefix = [],
      suffix = ''_tool'', prettify = False, validate = True\<rparr>"

definition no_runner :: py_module where
  "no_runner = \<lparr>tool_run = None, TOOL_DEFINITION = Some (Val (PStr ''{}''))\<rparr>"

definition bad_json :: py_module where
  "bad_json =
     \<lparr>tool_run = Some (Callable (\<lambda>a. Inr PNone)), TOOL_DEFINITION = Some (Val (PStr ''{''))\<rparr>"

definition int_description :: py_module where
  "int_description =
     \<lparr>tool_run = Some (Callable (\<lambda>a. Inr PNone)), TOOL_DEFINITION = Some (Val (PInt 3))\<rparr>"

lemma loads_open_brace: "json_loads ''{'' = Inl decode_error"
  by code_simp

theorem strict_import_failure_counterexample:
  "fst (broken_scan False) = Raised (Exn ImportError ''boom'')
   \<and> tools (snd (broken_scan False)) ''b'' = None"
  by (simp add: broken_scan_def broken_tree_def ok_module_def scan_simps)

theorem per_file_failure_policy_witness:
  "candidate demo_env ''a_tool.py'' \<and> candidate lenient_env ''a_tool.py''
   \<and> MAX_TOOL_FILE_SIZE_BYTES < 2000000 \<and> (10::nat) \<le> MAX_TOOL_FILE_SIZE_BYTES
   \<and> caught (Exn ImportError ''boom'') \<and> \<not> caught (Exn SystemExit ''1'')
   \<and> fst (process_file demo_env [''a_tool.py''] ''a_tool.py'' (Inr 2000000)
            (Inl (Exn ImportError ''boom'')) (init_state [])) = Ok
   \<and> issued (snk (snd (process_file demo_env [''a_tool.py''] ''a_tool.py'' (Inr 2000000)
            (Inl (Exn ImportError ''boom'')) (init_state []))))
       = [(LOW, SkippingTooBig ''a_tool.py'' 2000000)]
   \<and> fst (process_file demo_env [''a_tool.py''] ''a_tool.py'' (Inr 10)
            (Inl (Exn ImportError ''boom'')) (init_state []))
       = Raised (Exn ImportError ''boom'')
   \<and> issued (snk (snd (process_file demo_env [''a_tool.py''] ''a_tool.py'' (Inr 10)
            (Inl (Exn ImportError ''boom'')) (init_state []))))
       = [(LOW, ImportFailed ''a_tool.py'' (Exn ImportError ''boom''))]
   \<and> fst (process_file lenient_env [''a_tool.py''] ''a_tool.py'' (Inr 10)
            (Inl (Exn ImportError ''boom'')) (init_state [])) = Ok
   \<and> written (snk (snd (process_file lenient_env [''a_tool.py''] ''a_tool.py'' (Inr 10)
            (Inl (Exn ImportError ''boom'')) (init_state []))))
       = [ImportFailed ''a_tool.py'' (Exn ImportError ''boom'')]
   \<and> fst (process_file lenient_env [''a_tool.py''] ''a_tool.py'' (Inr 10)
            (Inl (Exn SystemExit ''1'')) (init_state [])) = Raised (Exn SystemExit ''1'')
   \<and> fst (process_file demo_env [''a_tool.py''] ''a_tool.py'' (Inr 10) (Inr no_runner)
            (init_state []))
       = Raised (Exn AttributeError ''Missing or non-callable `tool_run`'')
   \<and> fst (process_file lenient_env [''a_tool.py''] ''a_tool.py'' (Inr 10) (Inr no_runner)
            (init_state [])) = Ok
   \<and> extract_fields lenient_env int_description \<lparr>issued = [], written = []\<rparr> []
       = Some (Inl (Exn TypeError ''`TOOL_DEFINITION` must be a JSON string (type str)''),
               \<lparr>issued = [], written = []\<rparr>, [])
   \<and> extract_fields lenient_env bad_json \<lparr>issued = [], written = []\<rparr> []
       = Some (Inl (Exn ValueError ''Exception (JSONDecodeError): invalid JSON text''),
               \<lparr>issued = [], written = []\<rparr>, [])
   \<and> process_entries lenient_env [] 0
        [File ''a_tool.py'' (Inr 10) (Inl (Exn ImportError ''boom'')),
         File ''b_tool.py'' (Inr 10) (Inr ok_module)] ([], init_state [])
       = process_entries lenient_env [] 0 [File ''b_tool.py'' (Inr 10) (Inr ok_module)]
           ([], snd (process_file lenient_env [''a_tool.py''] ''a_tool.py'' (Inr 10)
                       (Inl (Exn ImportError ''boom'')) (init_state [])))
   \<and> tools (snd (broken_scan True)) ''b'' \<noteq> None
   \<and> fst (find_tools_json (\<lambda>b. Inr (Some broken_tree)) (PStr ''tools'')
            \<lparr>verbose_level = LOW, no_throw = False\<rparr> (PInt 0) PNone (PStr ''_tool'')
            (PBool False) (PBool False) []) = Raised (Exn ImportError ''boom'')
   \<and> fst (find_tools_json (\<lambda>b. Inr (Some broken_tree)) (PStr ''tools'')
            \<lparr>verbose_level = LOW, no_throw = False\<rparr> (PInt (- 1)) PNone (PStr ''_tool'')
            (PBool False) (PBool False) [])
       = Raised (Exn ValueError ''`max_depth` value must be >= 0'')"
proof -
  let ?boom = "Exn ImportError ''boom''"
  let ?exit = "Exn SystemExit ''1''"
  let ?s0 = "\<lparr>issued = [], written = []\<rparr>"
  let ?a = "''a_tool.py''"
  let ?b = "File ''b_tool.py'' (Inr 10) (Inr ok_module)"
  let ?strict = "\<lparr>verbose_level = LOW, no_throw = False\<rparr>"
  let ?before = "say HIGH (Traversing [] 0) demo_env ((init_state [])\<lparr>dirs_visited := [[]]\<rparr>)"
  have big: "MAX_TOOL_FILE_SIZE_BYTES < 2000000" and small: "(10::nat) \<le> MAX_TOOL_FILE_SIZE_BYTES"
    by (simp_all add: MAX_TOOL_FILE_SIZE_BYTES_def)
  have stem: "path_stem ?a = ''a_tool''" "path_suffix ?a = ''.py''"
    by (simp_all add: path_stem_def path_suffix_def rfind_dot_def)
  have cand: "candidate demo_env ?a" and cand': "candidate lenient_env ?a"
    by (simp_all add: candidate_def demo_env_def lenient_env_def stem py_startswith_def
        py_endswith_def)
  have cb: "caught ?boom" and ce: "\<not> caught ?exit" by (simp_all add: caught_def)
  have nr: "\<not> callable (getattr (tool_run no_runner))"
    by (simp add: no_runner_def getattr_def)
  have x1: "extract_fields env no_runner (snk (init_state [])) (draws (init_state []))
              = Some (Inl (Exn AttributeError ''Missing or non-callable `tool_run`''),
                      snk (init_state []), draws (init_state []))" for env
    using nr by (simp add: extract_fields_def Let_def)
  have idesc: "callable (getattr (tool_run int_description))
               \<and> getattr (TOOL_DEFINITION int_description) = Val (PInt 3)
               \<and> (\<forall>d. PInt 3 \<noteq> PStr d)"
    by (simp add: int_description_def getattr_def)
  have bj: "callable (getattr (tool_run bad_json))
            \<and> getattr (TOOL_DEFINITION bad_json) = Val (PStr ''{'')
            \<and> (validate lenient_env \<or> prettify lenient_env) \<and> json_loads ''{'' = Inl decode_error"
    by (simp add: bad_json_def getattr_def lenient_env_def loads_open_brace)
  note strict = per_file_failure_policy [where env = demo_env and name = ?a and big = 2000000
      and p = "[?a]" and exec = "Inl ?boom" and st = "init_state []" and size' = 10
      and ex = ?boom and m = no_runner
      and ex' = "Exn AttributeError ''Missing or non-callable `tool_run`''"
      and s' = "snk (init_state [])" and us' = "draws (init_state [])"]
  note lenient = per_file_failure_policy [where env = lenient_env and name = ?a
      and p = "[?a]" and st = "init_state []" and size' = 10
      and ex = ?boom and m = no_runner
      and ex' = "Exn AttributeError ''Missing or non-callable `tool_run`''"
      and s' = "snk (init_state [])" and us' = "draws (init_state [])"
      and q = "[]" and fstat = "Inr 10" and fexec = "Inl ?boom" and depth = 0
      and rest = "[?b]" and pushed = "[]"]
  have w1: "fst (process_file demo_env [?a] ?a (Inr 2000000) (Inl ?boom) (init_state [])) = Ok"
    and w1': "issued (snk (snd (process_file demo_env [?a] ?a (Inr 2000000) (Inl ?boom)
                 (init_state [])))) = [(LOW, SkippingTooBig ?a 2000000)]"
    using strict [THEN conjunct1] cand big by (simp_all add: init_state_def)
  have w2: "fst (process_file demo_env [?a] ?a (Inr 10) (Inl ?boom) (init_state [])) = Raised ?boom"
    and w2': "issued (snk (snd (process_file demo_env [?a] ?a (Inr 10) (Inl ?boom)
                 (init_state [])))) = [(LOW, ImportFailed ?a ?boom)]"
    using strict [THEN conjunct2, THEN conjunct1] cand small cb
    by (simp_all add: init_state_def demo_env_def)
  have w3: "fst (process_file lenient_env [?a] ?a (Inr 10) (Inl ?boom) (init_state [])) = Ok"
    and w3': "written (snk (snd (process_file lenient_env [?a] ?a (Inr 10) (Inl ?boom)
                 (init_state [])))) = [ImportFailed ?a ?boom]"
    using lenient [THEN conjunct2, THEN conjunct1] cand' small cb
    by (simp_all add: init_state_def lenient_env_def)
  have w4: "fst (process_file lenient_env [?a] ?a (Inr 10) (Inl ?exit) (init_state []))
              = Raised ?exit"
    using per_file_failure_policy [where env = lenient_env and name = ?a and p = "[?a]"
        and st = "init_state []" and size' = 10 and ex = ?exit,
        THEN conjunct2, THEN conjunct2, THEN conjunct1] cand' small ce
    by simp
  have w5: "fst (process_file demo_env [?a] ?a (Inr 10) (Inr no_runner) (init_state []))
              = Raised (Exn AttributeError ''Missing or non-callable `tool_run`'')"
    using strict [THEN conjunct2, THEN conjunct2, THEN conjunct2, THEN conjunct1] cand small x1
    by (simp add: demo_env_def)
  have w5': "fst (process_file lenient_env [?a] ?a (Inr 10) (Inr no_runner) (init_state [])) = Ok"
    using lenient [THEN conjunct2, THEN conjunct2, THEN conjunct2, THEN conjunct1] cand' small x1
    by (simp add: lenient_env_def)
  have w6: "extract_fields lenient_env int_description ?s0 []
       = Some (Inl (Exn TypeError ''`TOOL_DEFINITION` must be a JSON string (type str)''), ?s0, [])"
    using per_file_failure_policy [where env = lenient_env and m = int_description
        and v = "PInt 3" and s = ?s0 and us = "[]",
        THEN conjunct2, THEN conjunct2, THEN conjunct2, THEN conjunct2, THEN conjunct2,
        THEN conjunct1] idesc
    by simp
  have w7: "extract_fields lenient_env bad_json ?s0 []
       = Some (Inl (Exn ValueError ''Exception (JSONDecodeError): invalid JSON text''), ?s0, [])"
    using per_file_failure_policy [where env = lenient_env and m = bad_json
        and d = "''{''" and e = decode_error and s = ?s0 and us = "[]",
        THEN conjunct2, THEN conjunct2, THEN conjunct2, THEN conjunct2, THEN conjunct2,
        THEN conjunct2, THEN conjunct1] bj
    by (simp add: lenient_env_def decode_error_def)
  have w8: "process_entries lenient_env [] 0
        [File ?a (Inr 10) (Inl ?boom), ?b] ([], init_state [])
       = process_entries lenient_env [] 0 [?b]
           ([], snd (process_file lenient_env [?a] ?a (Inr 10) (Inl ?boom) (init_state [])))"
    using lenient [THEN conjunct2, THEN conjunct2, THEN conjunct2, THEN conjunct2, THEN conjunct2,
        THEN conjunct2, THEN conjunct2, THEN conjunct1] w3
    by simp
  have q0: "tools (snd (broken_scan True)) ''b'' \<noteq> None"
    by (simp add: broken_scan_def broken_tree_def ok_module_def scan_simps)
  have ca: "check_args (PStr ''tools'') ?strict (PInt 0) PNone (PStr ''_tool'') (PBool False)
              (PBool False) = Inr (''tools'', demo_env)"
    by (simp add: check_args_def demo_env_def)
  have st2: "fst (process_file demo_env ([] @ [?a]) ?a (Inr 10) (Inl ?boom) ?before) = Raised ?boom"
    using per_file_failure_policy [where env = demo_env and name = ?a and p = "[] @ [?a]"
        and st = ?before and size' = 10 and ex = ?boom,
        THEN conjunct2, THEN conjunct1] cand small cb
    by (simp add: demo_env_def)
  have stop: "process_entries demo_env [] 0 [File ?a (Inr 10) (Inl ?boom), ?b] ([], ?before)
        = (Raised ?boom, [], snd (process_file demo_env ([] @ [?a]) ?a (Inr 10) (Inl ?boom) ?before))"
    using per_file_failure_policy [where env = demo_env and name = ?a and q = "[]"
        and fstat = "Inr 10" and fexec = "Inl ?boom" and st = ?before and x = ?boom
        and depth = 0 and rest = "[?b]" and pushed = "[]",
        THEN conjunct2, THEN conjunct2, THEN conjunct2, THEN conjunct2, THEN conjunct2,
        THEN conjunct2, THEN conjunct2, THEN conjunct2, THEN conjunct1] st2
    by simp
  have loop: "scan_loop demo_env [(broken_tree, [], 0)] (init_state [])
        = (Raised ?boom, snd (process_file demo_env ([] @ [?a]) ?a (Inr 10) (Inl ?boom) ?before))"
    using per_file_failure_policy [where env = demo_env and current_dir = broken_tree
        and entries = "[File ?a (Inr 10) (Inl ?boom), ?b]" and q = "[]" and depth = 0
        and before = "init_state []" and x = ?boom and pushed' = "[]" and stack = "[]"
        and st' = "snd (process_file demo_env ([] @ [?a]) ?a (Inr 10) (Inl ?boom) ?before)",
        THEN conjunct2, THEN conjunct2, THEN conjunct2, THEN conjunct2, THEN conjunct2,
        THEN conjunct2, THEN conjunct2, THEN conjunct2, THEN conjunct2, THEN conjunct1] stop
    by (simp add: broken_tree_def init_state_def)
  have w9: "fst (find_tools_json (\<lambda>b. Inr (Some broken_tree)) (PStr ''tools'') ?strict (PInt 0)
                  PNone (PStr ''_tool'') (PBool False) (PBool False) []) = Raised ?boom"
    using per_file_failure_policy [where env = demo_env and base_dir = "PStr ''tools''"
        and vs' = ?strict and md' = "PInt 0" and pre' = PNone and suf' = "PStr ''_tool''"
        and pr' = "PBool False" and va' = "PBool False" and base = "''tools''"
        and fs = "\<lambda>b. Inr (Some broken_tree)" and dname = "''tools''" and l = False
        and err = None and entries = "[File ?a (Inr 10) (Inl ?boom), ?b]" and us = "[]"
        and x = ?boom
        and st' = "snd (process_file demo_env ([] @ [?a]) ?a (Inr 10) (Inl ?boom) ?before)",
        THEN conjunct2, THEN conjunct2, THEN conjunct2, THEN conjunct2, THEN conjunct2,
        THEN conjunct2, THEN conjunct2, THEN conjunct2, THEN conjunct2, THEN conjunct2,
        THEN conjunct1] ca loop
    by (simp add: broken_tree_def)
  have cn: "check_args (PStr ''tools'') ?strict (PInt (- 1)) PNone (PStr ''_tool'') (PBool False)
              (PBool False) = Inl (Exn ValueError ''`max_depth` value must be >= 0'')"
    by (simp add: check_args_def)
  have w10: "fst (find_tools_json (\<lambda>b. Inr (Some broken_tree)) (PStr ''tools'') ?strict
                   (PInt (- 1)) PNone (PStr ''_tool'') (PBool False) (PBool False) [])
        = Raised (Exn ValueError ''`max_depth` value must be >= 0'')"
    using per_file_failure_policy [where base_dir = "PStr ''tools''"
        and vs' = ?strict and md' = "PInt (- 1)" and pre' = PNone and suf' = "PStr ''_tool''"
        and pr' = "PBool False" and va' = "PBool False"
        and fs = "\<lambda>b. Inr (Some broken_tree)" and us = "[]"
        and x = "Exn ValueError ''`max_depth` value must be >= 0''",
        THEN conjunct2, THEN conjunct2, THEN conjunct2, THEN conjunct2, THEN conjunct2,
        THEN conjunct2, THEN conjunct2, THEN conjunct2, THEN conjunct2, THEN conjunct2,
        THEN conjunct2] cn
    by simp
  from cand cand' big small cb ce w1 w1' w2 w2' w3 w3' w4 w5 w5' w6 w7 w8 q0 w9 w10
  show ?thesis by (intro conjI)
qed

end
